theory Spec2Isabelle
  imports Main "HOL-Library.Word" "HOL-Library.Signed_Division"
begin

section \<open>PWM output driver (pwm_output_hal.c): data model\<close>

text \<open>
  The driver keeps a pool of output ports, two dispatch tables of pointers into the
  pool (motors, servos), an allocation cursor and the motor enable flag. All of them
  are file-level statics, so they start zeroed (null pointers, cursor 0) except the
  flag, which starts true.

  Pointers are modelled as options: \<open>None\<close> is the null pointer. A pointer into the
  pool is the index of the pool entry, a pointer to a timer peripheral is the
  peripheral's identity, and a pointer to a compare register is the pair of the timer
  and the register's name. Dereferencing a null pointer, and indexing an array beyond
  its declared size, are undefined behaviour in C; the model makes them values of the
  type \<open>fault\<close>, so that every operation returns either a fault or the next state.

  The compare register type \<open>timCCR_t\<close> is declared outside this file; its width is the
  type parameter \<open>'w\<close>. The macros \<open>MAX_MOTORS\<close>, \<open>MAX_SERVOS\<close>, \<open>MAX_PWM_MOTORS\<close>,
  \<open>MAX_PWM_SERVOS\<close>, the three clock constants and the function
  \<open>timerFindTimerHandle\<close> are declared outside this file as well and are the fields
  of the record \<open>env\<close>.
\<close>

type_synonym uint8_t = "8 word"
type_synonym uint16_t = "16 word"

datatype fault = NullPointer | OutOfBounds | DivisionByZero

datatype channel = TIM_CHANNEL_1 | TIM_CHANNEL_2 | TIM_CHANNEL_3 | TIM_CHANNEL_4
  | TIM_CHANNEL_OTHER

datatype ccr_reg = CCR1 | CCR2 | CCR3 | CCR4

type_synonym ccr_ptr = "nat \<times> ccr_reg"

datatype pwmWriteFuncPtr = WriteBrushed | WriteStandard

record pwmOutputPort_t =
  ccr :: "ccr_ptr option"
  tim :: "nat option"
  period :: uint16_t
  pwmWritePtr :: "pwmWriteFuncPtr option"

record timerHardware_t =
  hw_tim :: nat
  hw_channel :: channel
  hw_outputEnable :: bool
  hw_gpio :: nat
  hw_pin :: nat
  hw_alternateFunction :: nat
  hw_gpioInputMode :: nat

record env =
  MAX_MOTORS :: nat
  MAX_SERVOS :: nat
  MAX_PWM_MOTORS :: nat
  MAX_PWM_SERVOS :: nat
  PWM_TIMER_MHZ :: nat
  PWM_BRUSHED_TIMER_MHZ :: nat
  ONESHOT125_TIMER_MHZ :: nat
  timerFindTimerHandle :: "nat \<Rightarrow> nat option"

text \<open>
  Every store to a compare register and every call into the timer and GPIO layers is
  appended to a trace, in program order. The calls are external; the trace records
  which call was made on which arguments.
\<close>

datatype 'v event =
    StoreCCR ccr_ptr 'v
  | TimerForceOverflow "nat option"
  | ConfigTimeBase nat uint16_t uint8_t
  | HAL_GPIO_Init nat nat nat nat
  | HAL_TIM_PWM_ConfigChannel nat uint16_t channel
  | HAL_TIM_PWM_Start nat channel
  | HAL_TIM_PWM_Stop nat channel
  | HAL_TIM_Base_Start nat

record 'v pwm_regs =
  pwmOutputPorts :: "pwmOutputPort_t list"
  motors :: "nat option list"
  servos :: "nat option list"
  allocatedOutputPortCount :: uint8_t
  pwmMotorsEnabled :: bool
  ccr_mem :: "ccr_ptr \<Rightarrow> 'v"
  trace :: "'v event list"

type_synonym 'w pwm_state = "'w word pwm_regs"

definition MAX_PWM_OUTPUT_PORTS :: "env \<Rightarrow> nat" where
  "MAX_PWM_OUTPUT_PORTS e =
     (if MAX_MOTORS e > MAX_SERVOS e then MAX_MOTORS e else MAX_SERVOS e)"

definition null_port :: pwmOutputPort_t where
  "null_port = \<lparr>ccr = None, tim = None, period = 0, pwmWritePtr = None\<rparr>"

definition init_state :: "env \<Rightarrow> ('w::len) pwm_state" where
  "init_state e =
     \<lparr>pwmOutputPorts = replicate (MAX_PWM_OUTPUT_PORTS e) null_port,
      motors = replicate (MAX_PWM_MOTORS e) None,
      servos = replicate (MAX_PWM_SERVOS e) None,
      allocatedOutputPortCount = 0,
      pwmMotorsEnabled = True,
      ccr_mem = (\<lambda>r. 0),
      trace = []\<rparr>"

section \<open>Memory accesses\<close>

text \<open>\<open>motors[index]\<close> and \<open>servos[index]\<close>: a read of the table.\<close>

definition motors_at :: "('w::len) pwm_state \<Rightarrow> nat \<Rightarrow> fault + nat option" where
  "motors_at s index =
     (if index < length (motors s) then Inr (motors s ! index) else Inl OutOfBounds)"

definition servos_at :: "('w::len) pwm_state \<Rightarrow> nat \<Rightarrow> fault + nat option" where
  "servos_at s index =
     (if index < length (servos s) then Inr (servos s ! index) else Inl OutOfBounds)"

text \<open>\<open>p->\<close> for a pointer \<open>p\<close> into the pool: a read of the port record.\<close>

definition port_at :: "('w::len) pwm_state \<Rightarrow> nat option \<Rightarrow> fault + pwmOutputPort_t" where
  "port_at s p =
     (case p of
        None \<Rightarrow> Inl NullPointer
      | Some i \<Rightarrow>
          if i < length (pwmOutputPorts s) then Inr (pwmOutputPorts s ! i)
          else Inl OutOfBounds)"

text \<open>\<open>*r = v\<close> for a compare register pointer \<open>r\<close>.\<close>

definition store_ccr ::
  "ccr_ptr option \<Rightarrow> 'w word \<Rightarrow> ('w::len) pwm_state \<Rightarrow> fault + 'w pwm_state" where
  "store_ccr r v s =
     (case r of
        None \<Rightarrow> Inl NullPointer
      | Some a \<Rightarrow>
          Inr (s\<lparr>ccr_mem := (ccr_mem s)(a := v), trace := trace s @ [StoreCCR a v]\<rparr>))"

text \<open>A call into the timer or GPIO layer.\<close>

definition call_ext :: "'w word event \<Rightarrow> ('w::len) pwm_state \<Rightarrow> 'w pwm_state" where
  "call_ext ev s = s\<lparr>trace := trace s @ [ev]\<rparr>"

section \<open>Integer arithmetic of the brushed transform\<close>

text \<open>
  In \<open>(value - 1000) * period / 1000\<close> both 16-bit operands are promoted to \<open>int\<close>,
  which is 32 bits wide on the target. Signed arithmetic is written out on the
  integers: \<open>c_int\<close> wraps a result to 32-bit two's complement, and \<open>sdiv\<close> is the
  division that truncates toward zero. The quotient is then converted to the unsigned
  register type, that is, reduced modulo \<open>2 ^ w\<close>.
\<close>

definition c_int :: "int \<Rightarrow> int" where
  "c_int x = signed_take_bit 31 x"

definition brushed_quotient :: "uint16_t \<Rightarrow> uint16_t \<Rightarrow> int" where
  "brushed_quotient v p = c_int (c_int (c_int (uint v - 1000) * uint p) sdiv 1000)"

definition brushed_value :: "uint16_t \<Rightarrow> uint16_t \<Rightarrow> ('w::len) word" where
  "brushed_value v p = word_of_int (brushed_quotient v p)"

definition standard_value :: "uint16_t \<Rightarrow> ('w::len) word" where
  "standard_value v = ucast v"

section \<open>Port configuration\<close>

definition pwmOCConfig ::
  "env \<Rightarrow> nat \<Rightarrow> channel \<Rightarrow> uint16_t \<Rightarrow> ('w::len) pwm_state \<Rightarrow> 'w pwm_state" where
  "pwmOCConfig e t ch v s =
     (case timerFindTimerHandle e t of
        None \<Rightarrow> s
      | Some h \<Rightarrow> call_ext (HAL_TIM_PWM_ConfigChannel h v ch) s)"

definition pwmGPIOConfig :: "timerHardware_t \<Rightarrow> ('w::len) pwm_state \<Rightarrow> 'w pwm_state" where
  "pwmGPIOConfig th s =
     call_ext (HAL_GPIO_Init (hw_gpio th) (hw_pin th) (hw_alternateFunction th)
       (hw_gpioInputMode th)) s"

text \<open>
  The pointer \<open>p\<close> is formed from the cursor and the cursor is incremented before
  anything else. When the handle is not found the function returns \<open>p\<close> at once. The
  stores through \<open>p\<close> fault when \<open>p\<close> points beyond the pool. The \<open>switch\<close> has no
  default: for another channel the register pointer of the port is left as it was.
\<close>

definition bind_ccr :: "timerHardware_t \<Rightarrow> pwmOutputPort_t \<Rightarrow> pwmOutputPort_t" where
  "bind_ccr th port =
     (case hw_channel th of
        TIM_CHANNEL_1 \<Rightarrow> port\<lparr>ccr := Some (hw_tim th, CCR1)\<rparr>
      | TIM_CHANNEL_2 \<Rightarrow> port\<lparr>ccr := Some (hw_tim th, CCR2)\<rparr>
      | TIM_CHANNEL_3 \<Rightarrow> port\<lparr>ccr := Some (hw_tim th, CCR3)\<rparr>
      | TIM_CHANNEL_4 \<Rightarrow> port\<lparr>ccr := Some (hw_tim th, CCR4)\<rparr>
      | TIM_CHANNEL_OTHER \<Rightarrow> port)"

definition pwmOutConfig ::
  "env \<Rightarrow> timerHardware_t \<Rightarrow> uint8_t \<Rightarrow> uint16_t \<Rightarrow> uint16_t \<Rightarrow> ('w::len) pwm_state
     \<Rightarrow> fault + ('w pwm_state \<times> nat)" where
  "pwmOutConfig e th mhz per v s =
     (let p = unat (allocatedOutputPortCount s);
          s1 = s\<lparr>allocatedOutputPortCount := allocatedOutputPortCount s + 1\<rparr>
      in case timerFindTimerHandle e (hw_tim th) of
           None \<Rightarrow> Inr (s1, p)
         | Some h \<Rightarrow>
             let s2 = call_ext (ConfigTimeBase (hw_tim th) per mhz) s1;
                 s3 = pwmGPIOConfig th s2;
                 s4 = pwmOCConfig e (hw_tim th) (hw_channel th) v s3;
                 s5 = (if hw_outputEnable th
                       then call_ext (HAL_TIM_PWM_Start h (hw_channel th)) s4
                       else call_ext (HAL_TIM_PWM_Stop h (hw_channel th)) s4);
                 s6 = call_ext (HAL_TIM_Base_Start h) s5
             in if p < length (pwmOutputPorts s6)
                then Inr (s6\<lparr>pwmOutputPorts := (pwmOutputPorts s6)
                            [p := (bind_ccr th (pwmOutputPorts s6 ! p))
                                    \<lparr>period := per, tim := Some (hw_tim th)\<rparr>]\<rparr>, p)
                else Inl OutOfBounds)"

section \<open>Writing motors and servos\<close>

definition pwmWriteBrushed ::
  "nat \<Rightarrow> uint16_t \<Rightarrow> ('w::len) pwm_state \<Rightarrow> fault + 'w pwm_state" where
  "pwmWriteBrushed index v s =
     (case motors_at s index of
        Inl f \<Rightarrow> Inl f
      | Inr p \<Rightarrow>
          (case port_at s p of
             Inl f \<Rightarrow> Inl f
           | Inr port \<Rightarrow> store_ccr (ccr port) (brushed_value v (period port)) s))"

definition pwmWriteStandard ::
  "nat \<Rightarrow> uint16_t \<Rightarrow> ('w::len) pwm_state \<Rightarrow> fault + 'w pwm_state" where
  "pwmWriteStandard index v s =
     (case motors_at s index of
        Inl f \<Rightarrow> Inl f
      | Inr p \<Rightarrow>
          (case port_at s p of
             Inl f \<Rightarrow> Inl f
           | Inr port \<Rightarrow> store_ccr (ccr port) (standard_value v) s))"

text \<open>
  The condition reads \<open>motors[index]\<close> first, then compares the index with
  \<open>MAX_MOTORS\<close>, then reads the flag; \<open>&&\<close> stops at the first false operand. The
  call goes through the function pointer of the port: a null function pointer faults.
\<close>

definition pwmWriteMotor ::
  "env \<Rightarrow> uint8_t \<Rightarrow> uint16_t \<Rightarrow> ('w::len) pwm_state \<Rightarrow> fault + 'w pwm_state" where
  "pwmWriteMotor e index v s =
     (case motors_at s (unat index) of
        Inl f \<Rightarrow> Inl f
      | Inr p \<Rightarrow>
          if p \<noteq> None \<and> unat index < MAX_MOTORS e \<and> pwmMotorsEnabled s
          then (case port_at s p of
                  Inl f \<Rightarrow> Inl f
                | Inr port \<Rightarrow>
                    (case pwmWritePtr port of
                       None \<Rightarrow> Inl NullPointer
                     | Some WriteBrushed \<Rightarrow> pwmWriteBrushed (unat index) v s
                     | Some WriteStandard \<Rightarrow> pwmWriteStandard (unat index) v s))
          else Inr s)"

definition pwmWriteServo ::
  "env \<Rightarrow> uint8_t \<Rightarrow> uint16_t \<Rightarrow> ('w::len) pwm_state \<Rightarrow> fault + 'w pwm_state" where
  "pwmWriteServo e index v s =
     (case servos_at s (unat index) of
        Inl f \<Rightarrow> Inl f
      | Inr p \<Rightarrow>
          if p \<noteq> None \<and> unat index < MAX_SERVOS e
          then (case port_at s p of
                  Inl f \<Rightarrow> Inl f
                | Inr port \<Rightarrow> store_ccr (ccr port) (standard_value v) s)
          else Inr s)"

section \<open>Shutdown, gate and oneshot completion\<close>

text \<open>
  \<open>*motors[index]->ccr = 0\<close>: the table read, the port read and the register store.
\<close>

definition zero_motor_ccr :: "nat \<Rightarrow> ('w::len) pwm_state \<Rightarrow> fault + 'w pwm_state" where
  "zero_motor_ccr index s =
     (case motors_at s index of
        Inl f \<Rightarrow> Inl f
      | Inr p \<Rightarrow>
          (case port_at s p of
             Inl f \<Rightarrow> Inl f
           | Inr port \<Rightarrow> store_ccr (ccr port) 0 s))"

text \<open>
  The loops count a \<open>uint8_t\<close> index up to a \<open>uint8_t\<close> bound; the index stays below
  the bound, so the increment never wraps and the counter is a natural number here.
\<close>

function zero_loop :: "nat \<Rightarrow> nat \<Rightarrow> ('w::len) pwm_state \<Rightarrow> fault + 'w pwm_state" where
  "zero_loop index motorCount s =
     (if index < motorCount
      then (case zero_motor_ccr index s of
              Inl f \<Rightarrow> Inl f
            | Inr s' \<Rightarrow> zero_loop (Suc index) motorCount s')
      else Inr s)"
  by pat_completeness auto
termination
  by (relation "measure (\<lambda>(index, motorCount, s). motorCount - index)") auto

definition pwmShutdownPulsesForAllMotors ::
  "uint8_t \<Rightarrow> ('w::len) pwm_state \<Rightarrow> fault + 'w pwm_state" where
  "pwmShutdownPulsesForAllMotors motorCount s = zero_loop 0 (unat motorCount) s"

definition pwmDisableMotors :: "('w::len) pwm_state \<Rightarrow> 'w pwm_state" where
  "pwmDisableMotors s = s\<lparr>pwmMotorsEnabled := False\<rparr>"

definition pwmEnableMotors :: "('w::len) pwm_state \<Rightarrow> 'w pwm_state" where
  "pwmEnableMotors s = s\<lparr>pwmMotorsEnabled := True\<rparr>"

function overflow_loop ::
  "nat \<Rightarrow> nat \<Rightarrow> nat option \<Rightarrow> ('w::len) pwm_state \<Rightarrow> fault + 'w pwm_state" where
  "overflow_loop index motorCount lastTimerPtr s =
     (if index < motorCount
      then (case motors_at s index of
              Inl f \<Rightarrow> Inl f
            | Inr p \<Rightarrow>
                (case port_at s p of
                   Inl f \<Rightarrow> Inl f
                 | Inr port \<Rightarrow>
                     if tim port \<noteq> lastTimerPtr
                     then overflow_loop (Suc index) motorCount (tim port)
                            (call_ext (TimerForceOverflow (tim port)) s)
                     else overflow_loop (Suc index) motorCount lastTimerPtr s))
      else Inr s)"
  by pat_completeness auto
termination
  by (relation "measure (\<lambda>(index, motorCount, lastTimerPtr, s). motorCount - index)") auto

definition pwmCompleteOneshotMotorUpdate ::
  "uint8_t \<Rightarrow> ('w::len) pwm_state \<Rightarrow> fault + 'w pwm_state" where
  "pwmCompleteOneshotMotorUpdate motorCount s =
     (case overflow_loop 0 (unat motorCount) None s of
        Inl f \<Rightarrow> Inl f
      | Inr s' \<Rightarrow> zero_loop 0 (unat motorCount) s')"

definition isMotorBrushed :: "uint16_t \<Rightarrow> bool" where
  "isMotorBrushed motorPwmRate = (motorPwmRate > 500)"

section \<open>Motor and servo configuration\<close>

text \<open>
  The two statements shared by the three motor configuration functions:
  \<open>motors[motorIndex] = p\<close> for the pointer \<open>p\<close> returned by \<open>pwmOutConfig\<close>, then
  \<open>motors[motorIndex]->pwmWritePtr = fn\<close>.
\<close>

definition bind_motor ::
  "nat \<Rightarrow> pwmWriteFuncPtr \<Rightarrow> fault + (('w::len) pwm_state \<times> nat) \<Rightarrow> fault + 'w pwm_state" where
  "bind_motor motorIndex fn r =
     (case r of
        Inl f \<Rightarrow> Inl f
      | Inr (s, p) \<Rightarrow>
          if motorIndex < length (motors s)
          then (let s1 = s\<lparr>motors := (motors s)[motorIndex := Some p]\<rparr>
                in if p < length (pwmOutputPorts s1)
                   then Inr (s1\<lparr>pwmOutputPorts := (pwmOutputPorts s1)
                               [p := (pwmOutputPorts s1 ! p)\<lparr>pwmWritePtr := Some fn\<rparr>]\<rparr>)
                   else Inl OutOfBounds)
          else Inl OutOfBounds)"

text \<open>
  \<open>hz\<close> is a \<open>uint32_t\<close>; the quotient \<open>hz / motorPwmRate\<close> is passed as a
  \<open>uint16_t\<close> period. A rate of 0 divides by zero.
\<close>

definition rate_period :: "nat \<Rightarrow> uint16_t \<Rightarrow> uint16_t" where
  "rate_period mhz rate = of_nat (((mhz * 1000000) mod 2 ^ 32) div unat rate)"

definition pwmBrushedMotorConfig ::
  "env \<Rightarrow> timerHardware_t \<Rightarrow> uint8_t \<Rightarrow> uint16_t \<Rightarrow> uint16_t \<Rightarrow> ('w::len) pwm_state
     \<Rightarrow> fault + 'w pwm_state" where
  "pwmBrushedMotorConfig e th motorIndex motorPwmRate idlePulse s =
     (if motorPwmRate = 0 then Inl DivisionByZero
      else bind_motor (unat motorIndex) WriteBrushed
             (pwmOutConfig e th (of_nat (PWM_BRUSHED_TIMER_MHZ e))
                (rate_period (PWM_BRUSHED_TIMER_MHZ e) motorPwmRate) idlePulse s))"

definition pwmBrushlessMotorConfig ::
  "env \<Rightarrow> timerHardware_t \<Rightarrow> uint8_t \<Rightarrow> uint16_t \<Rightarrow> uint16_t \<Rightarrow> ('w::len) pwm_state
     \<Rightarrow> fault + 'w pwm_state" where
  "pwmBrushlessMotorConfig e th motorIndex motorPwmRate idlePulse s =
     (if motorPwmRate = 0 then Inl DivisionByZero
      else bind_motor (unat motorIndex) WriteStandard
             (pwmOutConfig e th (of_nat (PWM_TIMER_MHZ e))
                (rate_period (PWM_TIMER_MHZ e) motorPwmRate) idlePulse s))"

definition pwmOneshotMotorConfig ::
  "env \<Rightarrow> timerHardware_t \<Rightarrow> uint8_t \<Rightarrow> ('w::len) pwm_state \<Rightarrow> fault + 'w pwm_state" where
  "pwmOneshotMotorConfig e th motorIndex s =
     bind_motor (unat motorIndex) WriteStandard
       (pwmOutConfig e th (of_nat (ONESHOT125_TIMER_MHZ e)) 0xFFFF 0 s)"

definition pwmServoConfig ::
  "env \<Rightarrow> timerHardware_t \<Rightarrow> uint8_t \<Rightarrow> uint16_t \<Rightarrow> uint16_t \<Rightarrow> ('w::len) pwm_state
     \<Rightarrow> fault + 'w pwm_state" where
  "pwmServoConfig e th servoIndex servoPwmRate servoCenterPulse s =
     (if servoPwmRate = 0 then Inl DivisionByZero
      else (case pwmOutConfig e th (of_nat (PWM_TIMER_MHZ e))
                   (of_nat (1000000 div unat servoPwmRate)) servoCenterPulse s of
              Inl f \<Rightarrow> Inl f
            | Inr (s1, p) \<Rightarrow>
                if unat servoIndex < length (servos s1)
                then Inr (s1\<lparr>servos := (servos s1)[unat servoIndex := Some p]\<rparr>)
                else Inl OutOfBounds))"

section \<open>The operations of the module\<close>

datatype operation =
    WriteMotor uint8_t uint16_t
  | WriteServo uint8_t uint16_t
  | ShutdownPulsesForAllMotors uint8_t
  | DisableMotors
  | EnableMotors
  | CompleteOneshotMotorUpdate uint8_t
  | BrushedMotorConfig timerHardware_t uint8_t uint16_t uint16_t
  | BrushlessMotorConfig timerHardware_t uint8_t uint16_t uint16_t
  | OneshotMotorConfig timerHardware_t uint8_t
  | ServoConfig timerHardware_t uint8_t uint16_t uint16_t

fun run :: "env \<Rightarrow> operation \<Rightarrow> ('w::len) pwm_state \<Rightarrow> fault + 'w pwm_state" where
  "run e (WriteMotor i v) s = pwmWriteMotor e i v s"
| "run e (WriteServo i v) s = pwmWriteServo e i v s"
| "run e (ShutdownPulsesForAllMotors n) s = pwmShutdownPulsesForAllMotors n s"
| "run e DisableMotors s = Inr (pwmDisableMotors s)"
| "run e EnableMotors s = Inr (pwmEnableMotors s)"
| "run e (CompleteOneshotMotorUpdate n) s = pwmCompleteOneshotMotorUpdate n s"
| "run e (BrushedMotorConfig th i r v) s = pwmBrushedMotorConfig e th i r v s"
| "run e (BrushlessMotorConfig th i r v) s = pwmBrushlessMotorConfig e th i r v s"
| "run e (OneshotMotorConfig th i) s = pwmOneshotMotorConfig e th i s"
| "run e (ServoConfig th i r v) s = pwmServoConfig e th i r v s"

section \<open>Configured slots\<close>

text \<open>
  A motor slot is configured when it lies in the table and points at a pool entry whose
  register pointer, timer pointer and write function are all set: what a motor
  configuration call leaves behind when the timer handle was found and the channel is
  one of the four of the \<open>switch\<close>. A servo slot has no write function.
\<close>

definition port_resolved :: "('w::len) pwm_state \<Rightarrow> nat option \<Rightarrow> bool" where
  "port_resolved s p =
     (case p of
        None \<Rightarrow> False
      | Some i \<Rightarrow> i < length (pwmOutputPorts s) \<and> ccr (pwmOutputPorts s ! i) \<noteq> None
          \<and> tim (pwmOutputPorts s ! i) \<noteq> None)"

definition motor_port :: "('w::len) pwm_state \<Rightarrow> nat \<Rightarrow> pwmOutputPort_t" where
  "motor_port s i = pwmOutputPorts s ! the (motors s ! i)"

definition servo_port :: "('w::len) pwm_state \<Rightarrow> nat \<Rightarrow> pwmOutputPort_t" where
  "servo_port s i = pwmOutputPorts s ! the (servos s ! i)"

definition motor_configured :: "('w::len) pwm_state \<Rightarrow> nat \<Rightarrow> bool" where
  "motor_configured s i =
     (i < length (motors s) \<and> port_resolved s (motors s ! i)
      \<and> pwmWritePtr (motor_port s i) \<noteq> None)"

definition servo_configured :: "('w::len) pwm_state \<Rightarrow> nat \<Rightarrow> bool" where
  "servo_configured s i = (i < length (servos s) \<and> port_resolved s (servos s ! i))"

definition motor_ccr :: "('w::len) pwm_state \<Rightarrow> nat \<Rightarrow> ccr_ptr" where
  "motor_ccr s i = the (ccr (motor_port s i))"

definition motor_tim :: "('w::len) pwm_state \<Rightarrow> nat \<Rightarrow> nat" where
  "motor_tim s i = the (tim (motor_port s i))"

definition servo_ccr :: "('w::len) pwm_state \<Rightarrow> nat \<Rightarrow> ccr_ptr" where
  "servo_ccr s i = the (ccr (servo_port s i))"

text \<open>The register a motor or servo drives, as it reads in a state.\<close>

definition motor_reg :: "('w::len) pwm_state \<Rightarrow> nat \<Rightarrow> 'w word" where
  "motor_reg s i = ccr_mem s (motor_ccr s i)"

definition servo_reg :: "('w::len) pwm_state \<Rightarrow> nat \<Rightarrow> 'w word" where
  "servo_reg s i = ccr_mem s (servo_ccr s i)"

section \<open>Notions used in the statements\<close>

text \<open>
  The brushed formula in the specification's words, on natural numbers:
  \<open>(value - 1000) * period / 1000\<close> for a value of at least 1000.
\<close>

definition brushed_formula :: "nat \<Rightarrow> nat \<Rightarrow> nat" where
  "brushed_formula v P = (v - 1000) * P div 1000"

text \<open>The value a write function stores for a commanded value and a period.\<close>

definition transformed_value ::
  "pwmWriteFuncPtr \<Rightarrow> uint16_t \<Rightarrow> uint16_t \<Rightarrow> ('w::len) word" where
  "transformed_value fn per v =
     (case fn of WriteBrushed \<Rightarrow> brushed_value v per | WriteStandard \<Rightarrow> standard_value v)"

text \<open>The state after a store of \<open>x\<close> to the register \<open>a\<close>.\<close>

definition stored :: "ccr_ptr \<Rightarrow> 'w word \<Rightarrow> ('w::len) pwm_state \<Rightarrow> 'w pwm_state" where
  "stored a x s = s\<lparr>ccr_mem := (ccr_mem s)(a := x), trace := trace s @ [StoreCCR a x]\<rparr>"

text \<open>The state after 0 was stored to the registers of the motors \<open>ks\<close>, in order.\<close>

definition zero_all :: "nat list \<Rightarrow> ('w::len) pwm_state \<Rightarrow> 'w pwm_state" where
  "zero_all ks s = fold (\<lambda>k. stored (motor_ccr s k) 0) ks s"

text \<open>The events an operation appended to the trace, from the states before and after.\<close>

definition new_events :: "('w::len) pwm_state \<Rightarrow> 'w pwm_state \<Rightarrow> 'w word event list" where
  "new_events s s' = drop (length (trace s)) (trace s')"

text \<open>The timers of the force-overflow calls of a trace, in order.\<close>

fun overflow_calls :: "'v event list \<Rightarrow> nat option list" where
  "overflow_calls [] = []"
| "overflow_calls (TimerForceOverflow t # es) = t # overflow_calls es"
| "overflow_calls (e # es) = overflow_calls es"

fun is_overflow :: "'v event \<Rightarrow> bool" where
  "is_overflow (TimerForceOverflow t) = True"
| "is_overflow e = False"

fun is_store :: "'v event \<Rightarrow> bool" where
  "is_store (StoreCCR a x) = True"
| "is_store e = False"

text \<open>
  The timers on which a scan forces an overflow, for the timers of the scanned slots and
  the cursor \<open>lst\<close> the scan starts with: a timer is kept when it differs from the
  cursor, and becomes the cursor.
\<close>

fun forced :: "nat option \<Rightarrow> nat option list \<Rightarrow> nat option list" where
  "forced lst [] = []"
| "forced lst (t # ts) = (if t \<noteq> lst then t # forced t ts else forced lst ts)"

section \<open>A concrete board\<close>

text \<open>
  Twelve motor slots and eight servo slots, 32-bit compare registers, and three
  timers (1, 2 and 3) whose handles are found. Motor 0 is a brushed motor with period
  500 on timer 1, motors 1 and 2 are brushless on timers 2 and 1, and servo 0 is on
  timer 3.
\<close>

definition ex_env :: env where
  "ex_env =
     \<lparr>MAX_MOTORS = 12, MAX_SERVOS = 8, MAX_PWM_MOTORS = 12, MAX_PWM_SERVOS = 8,
      PWM_TIMER_MHZ = 1, PWM_BRUSHED_TIMER_MHZ = 8, ONESHOT125_TIMER_MHZ = 8,
      timerFindTimerHandle = (\<lambda>t. if t = 1 \<or> t = 2 \<or> t = 3 then Some (100 + t) else None)\<rparr>"

definition ex_hw :: "nat \<Rightarrow> channel \<Rightarrow> timerHardware_t" where
  "ex_hw t ch =
     \<lparr>hw_tim = t, hw_channel = ch, hw_outputEnable = True, hw_gpio = 0, hw_pin = 0,
      hw_alternateFunction = 0, hw_gpioInputMode = 0\<rparr>"

definition ex_state :: "32 pwm_state" where
  "ex_state =
     \<lparr>pwmOutputPorts =
        [\<lparr>ccr = Some (1, CCR1), tim = Some 1, period = 500, pwmWritePtr = Some WriteBrushed\<rparr>,
         \<lparr>ccr = Some (2, CCR1), tim = Some 2, period = 2500, pwmWritePtr = Some WriteStandard\<rparr>,
         \<lparr>ccr = Some (1, CCR2), tim = Some 1, period = 2500, pwmWritePtr = Some WriteStandard\<rparr>,
         \<lparr>ccr = Some (3, CCR1), tim = Some 3, period = 20000, pwmWritePtr = None\<rparr>,
         null_port, null_port, null_port, null_port,
         null_port, null_port, null_port, null_port],
      motors = [Some 0, Some 1, Some 2, None, None, None, None, None, None, None, None, None],
      servos = [Some 3, None, None, None, None, None, None, None],
      allocatedOutputPortCount = 4,
      pwmMotorsEnabled = True,
      ccr_mem = (\<lambda>r. 1500),
      trace = []\<rparr>"

text \<open>
  The number of force-overflow calls on the timer \<open>t\<close> that one oneshot completion
  makes; \<open>None\<close> when the completion faults.
\<close>

definition overflows_forced :: "uint8_t \<Rightarrow> ('w::len) pwm_state \<Rightarrow> nat \<Rightarrow> nat option" where
  "overflows_forced motorCount s t =
     (case pwmCompleteOneshotMotorUpdate motorCount s of
        Inl f \<Rightarrow> None
      | Inr s' \<Rightarrow> Some (count_list (overflow_calls (new_events s s')) (Some t)))"

text \<open>
  A board of three oneshot motors on the timers \<open>t0\<close>, \<open>t1\<close> and \<open>t2\<close>, whose
  compare registers all hold 1500.
\<close>

definition oneshot_port :: "nat \<Rightarrow> ccr_reg \<Rightarrow> pwmOutputPort_t" where
  "oneshot_port t r =
     \<lparr>ccr = Some (t, r), tim = Some t, period = 0xFFFF, pwmWritePtr = Some WriteStandard\<rparr>"

definition ex_oneshot :: "nat \<Rightarrow> nat \<Rightarrow> nat \<Rightarrow> 32 pwm_state" where
  "ex_oneshot t0 t1 t2 =
     \<lparr>pwmOutputPorts =
        [oneshot_port t0 CCR1, oneshot_port t1 CCR2, oneshot_port t2 CCR3,
         null_port, null_port, null_port, null_port, null_port,
         null_port, null_port, null_port, null_port],
      motors = [Some 0, Some 1, Some 2, None, None, None, None, None, None, None, None, None],
      servos = [None, None, None, None, None, None, None, None],
      allocatedOutputPortCount = 3,
      pwmMotorsEnabled = True,
      ccr_mem = (\<lambda>r. 1500),
      trace = []\<rparr>"

text \<open>
  The compare register of motor \<open>i\<close> as it reads after \<open>pwmWriteMotor\<close>;
  \<open>None\<close> when the write faults.
\<close>

definition motor_reg_after_write ::
  "env \<Rightarrow> uint8_t \<Rightarrow> uint16_t \<Rightarrow> ('w::len) pwm_state \<Rightarrow> 'w word option" where
  "motor_reg_after_write e i v s =
     (case pwmWriteMotor e i v s of
        Inl f \<Rightarrow> None
      | Inr s' \<Rightarrow> Some (motor_reg s' (unat i)))"

text \<open>
  For a value below 1000: the magnitude of the quotient \<open>(value - 1000) * period / 1000\<close>,
  which C truncates toward zero.
\<close>

definition brushed_magnitude :: "nat \<Rightarrow> nat \<Rightarrow> nat" where
  "brushed_magnitude v P = (1000 - v) * P div 1000"

text \<open>The operations that call \<open>pwmOutConfig\<close>.\<close>

fun allocates :: "operation \<Rightarrow> bool" where
  "allocates (BrushedMotorConfig th i r v) = True"
| "allocates (BrushlessMotorConfig th i r v) = True"
| "allocates (OneshotMotorConfig th i) = True"
| "allocates (ServoConfig th i r v) = True"
| "allocates op = False"

section \<open>Lemmas on the brushed arithmetic\<close>

lemma c_int_id: "- (2 ^ 31) \<le> x \<Longrightarrow> x < 2 ^ 31 \<Longrightarrow> c_int x = x"
  by (simp add: c_int_def signed_take_bit_int_eq_self)

lemma uint16_bounds: "0 \<le> uint (x :: uint16_t) \<and> uint x \<le> 65535"
  using uint_lt2p [of x] by simp

lemma brushed_quotient_upper:
  assumes lo: "1000 \<le> uint v" and hi: "uint v \<le> 2000"
  shows "brushed_quotient v p = (uint v - 1000) * uint p div 1000"
proof -
  let ?a = "uint v - 1000" and ?p = "uint p"
  have pb: "0 \<le> ?p" "?p \<le> 65535" using uint16_bounds [of p] by simp_all
  have a: "0 \<le> ?a" "?a \<le> 1000" using lo hi by simp_all
  have prod: "0 \<le> ?a * ?p" using a pb by simp
  have "?a * ?p \<le> 1000 * 65535" using a pb by (intro mult_mono) simp_all
  then have prod_hi: "?a * ?p < 2 ^ 31" by simp
  have q: "(?a * ?p) sdiv 1000 = ?a * ?p div 1000"
    using prod by (simp add: signed_divide_int_def sgn_if)
  have qb: "0 \<le> ?a * ?p div 1000" "?a * ?p div 1000 < 2 ^ 31"
    using prod prod_hi by (simp_all add: div_int_pos_iff)
  show ?thesis
    unfolding brushed_quotient_def
    using a prod prod_hi q qb by (simp add: c_int_id)
qed

lemma brushed_formula_int:
  assumes "1000 \<le> unat v"
  shows "int (brushed_formula (unat v) (unat p)) = (uint v - 1000) * uint p div 1000"
  using assms by (simp add: brushed_formula_def zdiv_int of_nat_diff)

lemma brushed_formula_le_period:
  assumes "v \<le> 2000"
  shows "brushed_formula v P \<le> P"
proof -
  have "(v - 1000) * P \<le> 1000 * P" using assms by (intro mult_le_mono1) simp
  then have "(v - 1000) * P div 1000 \<le> 1000 * P div 1000" by (rule div_le_mono)
  then show ?thesis by (simp add: brushed_formula_def)
qed

lemma brushed_formula_mono:
  assumes "v \<le> v'"
  shows "brushed_formula v P \<le> brushed_formula v' P"
  unfolding brushed_formula_def using assms
  by (intro div_le_mono mult_le_mono1) simp

lemma brushed_value_in_range:
  assumes "1000 \<le> unat v" "unat v \<le> 2000"
  shows "(brushed_value v p :: ('w::len) word) = of_nat (brushed_formula (unat v) (unat p))"
proof -
  have "1000 \<le> uint v" "uint v \<le> 2000" using assms unfolding uint_nat by linarith+
  then have "brushed_quotient v p = int (brushed_formula (unat v) (unat p))"
    using assms brushed_quotient_upper [of v p] brushed_formula_int [of v p] by simp
  then show ?thesis by (simp add: brushed_value_def)
qed

lemma unat_of_nat_16:
  assumes "16 \<le> LENGTH('w::len)" "n \<le> 65535"
  shows "unat (of_nat n :: 'w word) = n"
proof -
  have "(2::nat) ^ 16 \<le> 2 ^ LENGTH('w)" using assms(1) by (intro power_increasing) simp_all
  then have "n < 2 ^ LENGTH('w)" using assms(2) by simp
  then show ?thesis by (simp add: unat_of_nat)
qed

lemma unat16_le: "unat (x :: uint16_t) \<le> 65535"
  using unsigned_less [of x, where 'a = nat] by simp

subsection \<open>Reads and stores at a configured slot\<close>

lemma motor_configured_reads:
  assumes "motor_configured s i"
  shows "motors_at s i = Inr (motors s ! i)"
    and "motors s ! i \<noteq> None"
    and "port_at s (motors s ! i) = Inr (motor_port s i)"
    and "ccr (motor_port s i) = Some (motor_ccr s i)"
    and "tim (motor_port s i) = Some (motor_tim s i)"
  using assms
  by (auto simp: motor_configured_def motors_at_def port_at_def port_resolved_def
      motor_port_def motor_ccr_def motor_tim_def split: option.splits)

lemma store_ccr_Some: "store_ccr (Some a) x s = Inr (stored a x s)"
  by (simp add: store_ccr_def stored_def)

lemma stored_frame [simp]:
  "pwmOutputPorts (stored a x s) = pwmOutputPorts s"
  "motors (stored a x s) = motors s"
  "servos (stored a x s) = servos s"
  "allocatedOutputPortCount (stored a x s) = allocatedOutputPortCount s"
  "pwmMotorsEnabled (stored a x s) = pwmMotorsEnabled s"
  "ccr_mem (stored a x s) = (ccr_mem s)(a := x)"
  "trace (stored a x s) = trace s @ [StoreCCR a x]"
  by (simp_all add: stored_def)

lemma motor_port_stored [simp]: "motor_port (stored a x s) i = motor_port s i"
  by (simp add: motor_port_def)

lemma motor_ccr_stored [simp]: "motor_ccr (stored a x s) i = motor_ccr s i"
  by (simp add: motor_ccr_def)

lemma motor_configured_stored [simp]:
  "motor_configured (stored a x s) i = motor_configured s i"
  by (simp add: motor_configured_def port_resolved_def split: option.splits)

lemma pwmWriteMotor_configured:
  assumes cfg: "motor_configured s (unat i)" and rng: "unat i < MAX_MOTORS e"
    and en: "pwmMotorsEnabled s"
  shows "pwmWriteMotor e i v s =
           Inr (stored (motor_ccr s (unat i))
                 (transformed_value (the (pwmWritePtr (motor_port s (unat i))))
                    (period (motor_port s (unat i))) v) s)"
proof -
  note r = motor_configured_reads [OF cfg]
  obtain fn where fn: "pwmWritePtr (motor_port s (unat i)) = Some fn"
    using cfg by (auto simp: motor_configured_def)
  show ?thesis
    using r rng en fn
    by (cases fn)
      (simp_all add: pwmWriteMotor_def pwmWriteBrushed_def pwmWriteStandard_def
        store_ccr_Some transformed_value_def)
qed

lemma pwmWriteMotor_disabled:
  assumes "unat i < length (motors s)" "\<not> pwmMotorsEnabled s"
  shows "pwmWriteMotor e i v s = Inr s"
  using assms by (simp add: pwmWriteMotor_def motors_at_def)


section \<open>What a motor configuration leaves behind\<close>

text \<open>
  When the timer handle is found, the channel is one of the four of the \<open>switch\<close>,
  the cursor points into the pool and the motor index lies in the table, a motor
  configuration succeeds and leaves the slot configured, on the timer of the
  descriptor, with the period and the write function it was given.
\<close>

lemma bind_ccr_resolved:
  "hw_channel th \<noteq> TIM_CHANNEL_OTHER \<Longrightarrow> ccr (bind_ccr th port) \<noteq> None"
  by (cases "hw_channel th") (simp_all add: bind_ccr_def)

lemma pwmOutConfig_resolved:
  assumes h: "timerFindTimerHandle e (hw_tim th) = Some h"
    and c: "unat (allocatedOutputPortCount s) < length (pwmOutputPorts s)"
  shows "\<exists>s'. pwmOutConfig e th mhz per v s = Inr (s', unat (allocatedOutputPortCount s))
           \<and> motors s' = motors s \<and> servos s' = servos s
           \<and> length (pwmOutputPorts s') = length (pwmOutputPorts s)
           \<and> tim (pwmOutputPorts s' ! unat (allocatedOutputPortCount s)) = Some (hw_tim th)
           \<and> period (pwmOutputPorts s' ! unat (allocatedOutputPortCount s)) = per
           \<and> ccr (pwmOutputPorts s' ! unat (allocatedOutputPortCount s))
               = ccr (bind_ccr th (pwmOutputPorts s ! unat (allocatedOutputPortCount s)))"
  using h c
  by (simp add: pwmOutConfig_def Let_def pwmOCConfig_def pwmGPIOConfig_def call_ext_def)

lemma motor_config_configures:
  assumes h: "timerFindTimerHandle e (hw_tim th) = Some h"
    and ch: "hw_channel th \<noteq> TIM_CHANNEL_OTHER"
    and c: "unat (allocatedOutputPortCount s) < length (pwmOutputPorts s)"
    and i: "k < length (motors s)"
  shows "\<exists>s'. bind_motor k fn (pwmOutConfig e th mhz per v s) = Inr s'
           \<and> motor_configured s' k \<and> motor_tim s' k = hw_tim th
           \<and> pwmWritePtr (motor_port s' k) = Some fn \<and> period (motor_port s' k) = per"
proof -
  let ?p = "unat (allocatedOutputPortCount s)"
  obtain s1 where o: "pwmOutConfig e th mhz per v s = Inr (s1, ?p)"
    and m: "motors s1 = motors s" and l: "length (pwmOutputPorts s1) = length (pwmOutputPorts s)"
    and t: "tim (pwmOutputPorts s1 ! ?p) = Some (hw_tim th)"
    and pr: "period (pwmOutputPorts s1 ! ?p) = per"
    and r: "ccr (pwmOutputPorts s1 ! ?p) = ccr (bind_ccr th (pwmOutputPorts s ! ?p))"
    using pwmOutConfig_resolved [OF h c, of mhz per v] by blast
  have r': "ccr (pwmOutputPorts s1 ! ?p) \<noteq> None" using r bind_ccr_resolved [OF ch] by simp
  show ?thesis
    using o m l t pr r' c i
    by (auto simp: bind_motor_def Let_def motor_configured_def port_resolved_def
        motor_port_def motor_tim_def)
qed

section \<open>The classification helper\<close>

text \<open>
  Claim C10. \<open>isMotorBrushed\<close> takes the rate only and no state, and it is true
  exactly when the rate is strictly greater than 500; it is false at 500 and true
  at 501.
\<close>

theorem isMotorBrushed_threshold:
  "(isMotorBrushed r \<longleftrightarrow> 500 < unat r) \<and> \<not> isMotorBrushed 500 \<and> isMotorBrushed 501"
  by (simp add: isMotorBrushed_def word_less_nat_alt)

section \<open>The brushed transform on the command range\<close>

text \<open>
  Claim C3. For a configured brushed motor with period \<open>P\<close>, the gate enabled and the
  index below \<open>MAX_MOTORS\<close>, a write of a value in the range 1000 to 2000 succeeds and
  leaves the motor's compare register holding \<open>(v - 1000) * P / 1000\<close>; of two values
  in that range the larger one leaves the larger or equal register value. The register
  is at least 16 bits wide.
\<close>

theorem brushed_write_in_range:
  fixes s :: "('w::len) pwm_state"
  assumes cfg: "motor_configured s (unat i)" and rng: "unat i < MAX_MOTORS e"
    and en: "pwmMotorsEnabled s"
    and br: "pwmWritePtr (motor_port s (unat i)) = Some WriteBrushed"
    and per: "period (motor_port s (unat i)) = P"
    and w: "16 \<le> LENGTH('w)"
    and v: "1000 \<le> unat v" "unat v \<le> unat v'" "unat v' \<le> 2000"
  shows "\<exists>s1 s2. pwmWriteMotor e i v s = Inr s1 \<and> pwmWriteMotor e i v' s = Inr s2
           \<and> unat (motor_reg s1 (unat i)) = brushed_formula (unat v) (unat P)
           \<and> unat (motor_reg s2 (unat i)) = brushed_formula (unat v') (unat P)
           \<and> motor_reg s1 (unat i) \<le> motor_reg s2 (unat i)"
proof -
  let ?a = "motor_ccr s (unat i)"
  let ?x = "of_nat (brushed_formula (unat v) (unat P)) :: 'w word"
  let ?x' = "of_nat (brushed_formula (unat v') (unat P)) :: 'w word"
  have w1: "pwmWriteMotor e i v s = Inr (stored ?a ?x s)"
    using pwmWriteMotor_configured [OF cfg rng en, of v] br per v
    by (simp add: transformed_value_def brushed_value_in_range)
  have w2: "pwmWriteMotor e i v' s = Inr (stored ?a ?x' s)"
    using pwmWriteMotor_configured [OF cfg rng en, of v'] br per v
    by (simp add: transformed_value_def brushed_value_in_range)
  have b: "brushed_formula (unat v) (unat P) \<le> 65535"
    "brushed_formula (unat v') (unat P) \<le> 65535"
    using brushed_formula_le_period [of "unat v" "unat P"]
      brushed_formula_le_period [of "unat v'" "unat P"] v unat16_le [of P] by simp_all
  have u: "unat ?x = brushed_formula (unat v) (unat P)"
    "unat ?x' = brushed_formula (unat v') (unat P)"
    using unat_of_nat_16 [OF w] b by simp_all
  have m: "?x \<le> ?x'"
    using u brushed_formula_mono [OF v(2), of "unat P"] by (simp add: word_le_nat_alt)
  show ?thesis
    using w1 w2 u m by (simp add: motor_reg_def)
qed

lemma ex_state_motor0:
  "motor_configured ex_state (unat (0 :: uint8_t))"
  "unat (0 :: uint8_t) < MAX_MOTORS ex_env"
  "pwmMotorsEnabled ex_state"
  "pwmWritePtr (motor_port ex_state (unat (0 :: uint8_t))) = Some WriteBrushed"
  "period (motor_port ex_state (unat (0 :: uint8_t))) = 500"
  by (simp_all add: motor_configured_def ex_state_def ex_env_def port_resolved_def
      motor_port_def)

theorem brushed_write_in_range_witness:
  "motor_configured ex_state (unat (0 :: uint8_t)) \<and> unat (0 :: uint8_t) < MAX_MOTORS ex_env
   \<and> pwmMotorsEnabled ex_state
   \<and> pwmWritePtr (motor_port ex_state (unat (0 :: uint8_t))) = Some WriteBrushed
   \<and> period (motor_port ex_state (unat (0 :: uint8_t))) = 500
   \<and> 16 \<le> LENGTH(32)
   \<and> 1000 \<le> unat (1200 :: uint16_t) \<and> unat (1200 :: uint16_t) \<le> unat (1500 :: uint16_t)
   \<and> unat (1500 :: uint16_t) \<le> 2000
   \<and> (\<exists>s1 s2. pwmWriteMotor ex_env 0 1200 ex_state = Inr s1
          \<and> pwmWriteMotor ex_env 0 1500 ex_state = Inr s2
          \<and> unat (motor_reg s1 (unat (0 :: uint8_t))) = 100
          \<and> unat (motor_reg s2 (unat (0 :: uint8_t))) = 250
          \<and> motor_reg s1 (unat (0 :: uint8_t)) \<le> motor_reg s2 (unat (0 :: uint8_t)))"
proof -
  note h = ex_state_motor0
  have w: "16 \<le> LENGTH(32)" by simp
  have v: "1000 \<le> unat (1200 :: uint16_t)" "unat (1200 :: uint16_t) \<le> unat (1500 :: uint16_t)"
    "unat (1500 :: uint16_t) \<le> 2000"
    by simp_all
  have f: "brushed_formula (unat (1200 :: uint16_t)) (unat (500 :: uint16_t)) = 100"
    "brushed_formula (unat (1500 :: uint16_t)) (unat (500 :: uint16_t)) = 250"
    by (simp_all add: brushed_formula_def)
  show ?thesis
    using h w v brushed_write_in_range [OF h w v] unfolding f by blast
qed

subsection \<open>Below the command range\<close>

lemma brushed_quotient_lower:
  assumes "uint v < 1000"
  shows "brushed_quotient v p = - ((1000 - uint v) * uint p div 1000)"
proof -
  let ?b = "1000 - uint v" and ?p = "uint p"
  have pb: "0 \<le> ?p" "?p \<le> 65535" using uint16_bounds [of p] by simp_all
  have b: "0 < ?b" "?b \<le> 1000" using assms uint16_bounds [of v] by simp_all
  have prod: "0 \<le> ?b * ?p" using b pb by simp
  have "?b * ?p \<le> 1000 * 65535" using b pb by (intro mult_mono) simp_all
  then have prod_hi: "?b * ?p < 2 ^ 31" by simp
  have neg: "(uint v - 1000) * ?p = - (?b * ?p)" by (simp add: algebra_simps)
  have q: "(- (?b * ?p)) sdiv 1000 = - (?b * ?p div 1000)"
    using prod by (simp add: signed_divide_int_def sgn_if)
  have qb: "0 \<le> ?b * ?p div 1000" "?b * ?p div 1000 < 2 ^ 31"
    using prod prod_hi by (simp_all add: div_int_pos_iff)
  have c1: "c_int (uint v - 1000) = uint v - 1000"
    using b by (intro c_int_id) simp_all
  have c2: "c_int (- (?b * ?p)) = - (?b * ?p)"
    using prod prod_hi by (intro c_int_id) simp_all
  have c3: "c_int (- (?b * ?p div 1000)) = - (?b * ?p div 1000)"
    using qb by (intro c_int_id) simp_all
  show ?thesis
    unfolding brushed_quotient_def by (simp only: c1 neg c2 q c3)
qed

lemma brushed_magnitude_int:
  assumes "unat v < 1000"
  shows "int (brushed_magnitude (unat v) (unat p)) = (1000 - uint v) * uint p div 1000"
  using assms unfolding uint_nat by (simp add: brushed_magnitude_def zdiv_int of_nat_diff)

lemma brushed_value_below:
  assumes "unat v < 1000"
  shows "(brushed_value v p :: ('w::len) word) = - of_nat (brushed_magnitude (unat v) (unat p))"
proof -
  have "uint v < 1000" using assms unfolding uint_nat by linarith
  then have "brushed_quotient v p = - int (brushed_magnitude (unat v) (unat p))"
    using brushed_quotient_lower [of v p] brushed_magnitude_int [OF assms, of p] by simp
  then show ?thesis by (simp add: brushed_value_def)
qed

lemma brushed_magnitude_le_period: "brushed_magnitude v P \<le> P"
proof -
  have "(1000 - v) * P \<le> 1000 * P" by (intro mult_le_mono1) simp
  then have "(1000 - v) * P div 1000 \<le> 1000 * P div 1000" by (rule div_le_mono)
  then show ?thesis by (simp add: brushed_magnitude_def)
qed

lemma brushed_magnitude_zero_iff: "brushed_magnitude v P = 0 \<longleftrightarrow> (1000 - v) * P < 1000"
  by (simp add: brushed_magnitude_def div_eq_0_iff)

lemma unat_minus_of_nat:
  assumes "0 < n" "n < 2 ^ LENGTH('w::len)"
  shows "unat (- of_nat n :: 'w word) = 2 ^ LENGTH('w) - n"
proof -
  let ?m = "(2 :: int) ^ LENGTH('w)"
  have lt: "int n < ?m" using assms(2) by (metis of_nat_less_iff of_nat_numeral of_nat_power)
  have "(- int n + ?m) mod ?m = - int n + ?m"
    using assms(1) lt by (intro mod_pos_pos_trivial) simp_all
  then have m: "(- int n) mod ?m = ?m - int n" by simp
  have "(- of_nat n :: 'w word) = word_of_int (- int n)" by simp
  then have "uint (- of_nat n :: 'w word) = (- int n) mod ?m"
    by (simp only: uint_word_of_int)
  then have "uint (- of_nat n :: 'w word) = ?m - int n" using m by simp
  then have "int (unat (- of_nat n :: 'w word)) = int (2 ^ LENGTH('w) - n)"
    using assms(2) unfolding uint_nat by (simp add: of_nat_diff)
  then show ?thesis by (simp only: of_nat_eq_iff)
qed

text \<open>
  Claim C9, as the code has it. For a configured brushed motor with period \<open>P\<close>, the
  gate enabled and the index below \<open>MAX_MOTORS\<close>, a write of a value \<open>v\<close> below 1000
  is not clamped: the register receives the negation, modulo \<open>2 ^ w\<close>, of the
  magnitude \<open>(1000 - v) * P / 1000\<close>. When \<open>(1000 - v) * P\<close> is below 1000 the
  quotient truncates to zero and the register reads 0. When it is at least 1000, on a
  register of at least 16 bits, the register reads \<open>2 ^ w\<close> minus the magnitude, a
  non-zero value of at least \<open>2 ^ w - P\<close>.
\<close>

theorem brushed_write_below_range:
  fixes s :: "('w::len) pwm_state"
  assumes cfg: "motor_configured s (unat i)" and rng: "unat i < MAX_MOTORS e"
    and en: "pwmMotorsEnabled s"
    and br: "pwmWritePtr (motor_port s (unat i)) = Some WriteBrushed"
    and per: "period (motor_port s (unat i)) = P"
    and v: "unat v < 1000"
  shows "motor_reg_after_write e i v s
           = Some (- of_nat (brushed_magnitude (unat v) (unat P)))
         \<and> ((1000 - unat v) * unat P < 1000 \<longrightarrow> motor_reg_after_write e i v s = Some 0)
         \<and> (1000 \<le> (1000 - unat v) * unat P \<and> 16 \<le> LENGTH('w) \<longrightarrow>
              (\<exists>x. motor_reg_after_write e i v s = Some x
                 \<and> unat x = 2 ^ LENGTH('w) - brushed_magnitude (unat v) (unat P)
                 \<and> 2 ^ LENGTH('w) - unat P \<le> unat x \<and> x \<noteq> 0))"
proof -
  let ?q = "brushed_magnitude (unat v) (unat P)"
  let ?x = "- of_nat ?q :: 'w word"
  have w: "pwmWriteMotor e i v s = Inr (stored (motor_ccr s (unat i)) ?x s)"
    using pwmWriteMotor_configured [OF cfg rng en, of v] br per v
    by (simp add: transformed_value_def brushed_value_below)
  have r: "motor_reg_after_write e i v s = Some ?x"
    by (simp add: motor_reg_after_write_def w motor_reg_def)
  have z: "motor_reg_after_write e i v s = Some 0" if "(1000 - unat v) * unat P < 1000"
  proof -
    have "?q = 0" using that by (simp add: brushed_magnitude_zero_iff)
    then show ?thesis using r by simp
  qed
  have big: "unat ?x = 2 ^ LENGTH('w) - ?q \<and> 2 ^ LENGTH('w) - unat P \<le> unat ?x \<and> ?x \<noteq> 0"
    if nz: "1000 \<le> (1000 - unat v) * unat P" and len: "16 \<le> LENGTH('w)"
  proof -
    have pos: "0 < ?q" using nz brushed_magnitude_zero_iff [of "unat v" "unat P"] by simp
    have le: "?q \<le> unat P" by (rule brushed_magnitude_le_period)
    have "(2::nat) ^ 16 \<le> 2 ^ LENGTH('w)" using len by (intro power_increasing) simp_all
    then have lt: "?q < 2 ^ LENGTH('w)" using le unat16_le [of P] by simp
    have u: "unat ?x = 2 ^ LENGTH('w) - ?q" using unat_minus_of_nat [OF pos lt] .
    have "unat ?x \<noteq> 0" using u lt by simp
    then have "?x \<noteq> 0" by (metis unsigned_0)
    then show ?thesis using u le by simp
  qed
  show ?thesis using r z big by blast
qed

theorem brushed_write_below_range_witness:
  "motor_configured ex_state (unat (0 :: uint8_t)) \<and> unat (0 :: uint8_t) < MAX_MOTORS ex_env
   \<and> pwmMotorsEnabled ex_state
   \<and> pwmWritePtr (motor_port ex_state (unat (0 :: uint8_t))) = Some WriteBrushed
   \<and> period (motor_port ex_state (unat (0 :: uint8_t))) = 500
   \<and> unat (998 :: uint16_t) < 1000
   \<and> 1000 \<le> (1000 - unat (998 :: uint16_t)) * unat (500 :: uint16_t) \<and> 16 \<le> LENGTH(32)
   \<and> motor_reg_after_write ex_env 0 998 ex_state = Some 4294967295
   \<and> unat (999 :: uint16_t) < 1000
   \<and> (1000 - unat (999 :: uint16_t)) * unat (500 :: uint16_t) < 1000
   \<and> motor_reg_after_write ex_env 0 999 ex_state = Some 0"
proof -
  note h = ex_state_motor0
  have v1: "unat (998 :: uint16_t) < 1000" and v2: "unat (999 :: uint16_t) < 1000" by simp_all
  have b1: "1000 \<le> (1000 - unat (998 :: uint16_t)) * unat (500 :: uint16_t)"
    and b2: "(1000 - unat (999 :: uint16_t)) * unat (500 :: uint16_t) < 1000"
    and w: "16 \<le> LENGTH(32)" by simp_all
  have m: "brushed_magnitude (unat (998 :: uint16_t)) (unat (500 :: uint16_t)) = 1"
    by (simp add: brushed_magnitude_def)
  have r1: "motor_reg_after_write ex_env 0 998 ex_state = Some 4294967295"
    using brushed_write_below_range [OF h v1] unfolding m by simp
  have r2: "motor_reg_after_write ex_env 0 999 ex_state = Some 0"
    using brushed_write_below_range [OF h v2] b2 by blast
  show ?thesis using h v1 v2 b1 b2 w r1 r2 by blast
qed

text \<open>
  The claim as stated, a large register value for every value below 1000, fails where
  the quotient truncates to zero: with period 500 and value 999 the register reads 0.
\<close>

theorem brushed_write_below_range_counterexample:
  "motor_configured ex_state (unat (0 :: uint8_t)) \<and> unat (0 :: uint8_t) < MAX_MOTORS ex_env
   \<and> pwmMotorsEnabled ex_state
   \<and> pwmWritePtr (motor_port ex_state (unat (0 :: uint8_t))) = Some WriteBrushed
   \<and> period (motor_port ex_state (unat (0 :: uint8_t))) = 500
   \<and> (999 :: uint16_t) < 1000
   \<and> motor_reg_after_write ex_env 0 999 ex_state = Some 0"
proof -
  have "pwmWriteMotor ex_env 0 999 ex_state
          = Inr (stored (1, CCR1) (brushed_value 999 500) ex_state)"
    by (simp add: pwmWriteMotor_def pwmWriteBrushed_def motors_at_def port_at_def
        store_ccr_Some ex_state_def ex_env_def)
  moreover have "(brushed_value 999 500 :: 32 word) = 0"
    by (simp add: brushed_value_def brushed_quotient_def c_int_def signed_divide_int_def
        signed_take_bit_eq_take_bit_shift take_bit_eq_mod)
  ultimately have "motor_reg_after_write ex_env 0 999 ex_state = Some 0"
    by (simp add: motor_reg_after_write_def motor_reg_def motor_ccr_def motor_port_def
        ex_state_def)
  then show ?thesis using ex_state_motor0 by simp
qed

section \<open>The two loops\<close>

declare zero_loop.simps [simp del] overflow_loop.simps [simp del]

lemma call_ext_frame [simp]:
  "pwmOutputPorts (call_ext ev s) = pwmOutputPorts s"
  "motors (call_ext ev s) = motors s"
  "servos (call_ext ev s) = servos s"
  "allocatedOutputPortCount (call_ext ev s) = allocatedOutputPortCount s"
  "pwmMotorsEnabled (call_ext ev s) = pwmMotorsEnabled s"
  "ccr_mem (call_ext ev s) = ccr_mem s"
  "trace (call_ext ev s) = trace s @ [ev]"
  by (simp_all add: call_ext_def)

lemma motor_port_call_ext [simp]: "motor_port (call_ext ev s) i = motor_port s i"
  by (simp add: motor_port_def)

lemma motor_tim_call_ext [simp]: "motor_tim (call_ext ev s) i = motor_tim s i"
  by (simp add: motor_tim_def)

lemma motor_configured_call_ext [simp]:
  "motor_configured (call_ext ev s) i = motor_configured s i"
  by (simp add: motor_configured_def port_resolved_def split: option.splits)

lemma zero_motor_ccr_configured:
  assumes "motor_configured s i"
  shows "zero_motor_ccr i s = Inr (stored (motor_ccr s i) 0 s)"
  using motor_configured_reads [OF assms]
  by (simp add: zero_motor_ccr_def store_ccr_Some)

subsection \<open>The zeroing loop\<close>

lemma fold_stored_frame:
  "pwmOutputPorts (fold (\<lambda>k. stored (g k) x) ks s) = pwmOutputPorts s
   \<and> motors (fold (\<lambda>k. stored (g k) x) ks s) = motors s
   \<and> servos (fold (\<lambda>k. stored (g k) x) ks s) = servos s
   \<and> allocatedOutputPortCount (fold (\<lambda>k. stored (g k) x) ks s) = allocatedOutputPortCount s
   \<and> pwmMotorsEnabled (fold (\<lambda>k. stored (g k) x) ks s) = pwmMotorsEnabled s"
  by (induction ks arbitrary: s) simp_all

lemma fold_stored_trace:
  "trace (fold (\<lambda>k. stored (g k) x) ks s) = trace s @ map (\<lambda>k. StoreCCR (g k) x) ks"
  by (induction ks arbitrary: s) simp_all

lemma fold_stored_mem:
  "ccr_mem (fold (\<lambda>k. stored (g k) x) ks s) a = (if a \<in> g ` set ks then x else ccr_mem s a)"
  by (induction ks arbitrary: s) auto

lemma stored_gate:
  "stored a x (s\<lparr>pwmMotorsEnabled := b\<rparr>) = (stored a x s)\<lparr>pwmMotorsEnabled := b\<rparr>"
  by (simp add: stored_def)

lemma fold_stored_gate:
  "fold (\<lambda>k. stored (g k) x) ks (s\<lparr>pwmMotorsEnabled := b\<rparr>)
     = (fold (\<lambda>k. stored (g k) x) ks s)\<lparr>pwmMotorsEnabled := b\<rparr>"
  by (induction ks arbitrary: s) (simp_all add: stored_gate)

lemma zero_loop_configured:
  "(\<And>k. index \<le> k \<Longrightarrow> k < n \<Longrightarrow> motor_configured s k) \<Longrightarrow>
     zero_loop index n s = Inr (fold (\<lambda>k. stored (motor_ccr s k) 0) [index..<n] s)"
proof (induction index n s rule: zero_loop.induct)
  case (1 index motorCount s)
  show ?case
  proof (cases "index < motorCount")
    case False
    then show ?thesis by (subst zero_loop.simps) simp
  next
    case True
    let ?s' = "stored (motor_ccr s index) 0 s"
    have z: "zero_motor_ccr index s = Inr ?s'"
      using "1.prems" [of index] True by (simp add: zero_motor_ccr_configured)
    have cfg': "\<And>k. Suc index \<le> k \<Longrightarrow> k < motorCount \<Longrightarrow> motor_configured ?s' k"
      using "1.prems" by simp
    have ih: "zero_loop (Suc index) motorCount ?s'
                = Inr (fold (\<lambda>k. stored (motor_ccr ?s' k) 0) [Suc index..<motorCount] ?s')"
      using "1.IH" [OF True z cfg'] by simp
    have "zero_loop index motorCount s = zero_loop (Suc index) motorCount ?s'"
      using True z by (subst zero_loop.simps) simp
    also have "\<dots> = Inr (fold (\<lambda>k. stored (motor_ccr s k) 0) [index..<motorCount] s)"
      using ih True by (simp add: upt_conv_Cons)
    finally show ?thesis .
  qed
qed

lemma zero_loop_from_0:
  assumes "\<And>k. k < n \<Longrightarrow> motor_configured s k"
  shows "zero_loop 0 n s = Inr (zero_all [0..<n] s)"
  using zero_loop_configured [of 0 n s] assms by (simp add: zero_all_def)

lemma zero_all_frame [simp]:
  "pwmOutputPorts (zero_all ks s) = pwmOutputPorts s"
  "motors (zero_all ks s) = motors s"
  "servos (zero_all ks s) = servos s"
  "allocatedOutputPortCount (zero_all ks s) = allocatedOutputPortCount s"
  "pwmMotorsEnabled (zero_all ks s) = pwmMotorsEnabled s"
  "trace (zero_all ks s) = trace s @ map (\<lambda>k. StoreCCR (motor_ccr s k) 0) ks"
  by (simp_all add: zero_all_def fold_stored_frame fold_stored_trace)

lemma motor_ccr_zero_all [simp]: "motor_ccr (zero_all ks s) i = motor_ccr s i"
  by (simp add: motor_ccr_def motor_port_def)

lemma motor_reg_zero_all:
  "k \<in> set ks \<Longrightarrow> motor_reg (zero_all ks s) k = 0"
  by (simp add: motor_reg_def) (simp add: zero_all_def fold_stored_mem)

subsection \<open>The overflow loop\<close>

lemma overflow_loop_configured:
  "(\<And>k. index \<le> k \<Longrightarrow> k < n \<Longrightarrow> motor_configured s k) \<Longrightarrow>
     overflow_loop index n lst s =
       Inr (s\<lparr>trace := trace s @ map TimerForceOverflow
              (forced lst (map (\<lambda>k. Some (motor_tim s k)) [index..<n]))\<rparr>)"
proof (induction index n lst s rule: overflow_loop.induct)
  case (1 index motorCount lastTimerPtr s)
  show ?case
  proof (cases "index < motorCount")
    case False
    then show ?thesis by (subst overflow_loop.simps) simp
  next
    case True
    note r = motor_configured_reads [OF "1.prems" [of index, OF le_refl True]]
    let ?t = "Some (motor_tim s index)"
    let ?s' = "call_ext (TimerForceOverflow ?t) s"
    let ?M = "map (\<lambda>k. Some (motor_tim s k)) [Suc index..<motorCount]"
    have up: "map (\<lambda>k. Some (motor_tim s k)) [index..<motorCount] = ?t # ?M"
      using True by (simp add: upt_conv_Cons)
    have cfg': "\<And>k. Suc index \<le> k \<Longrightarrow> k < motorCount \<Longrightarrow> motor_configured s k"
      using "1.prems" by simp
    show ?thesis
    proof (cases "?t = lastTimerPtr")
      case same: True
      have eq: "\<not> tim (motor_port s index) \<noteq> lastTimerPtr" using same r(5) by simp
      have ih: "overflow_loop (Suc index) motorCount lastTimerPtr s =
         Inr (s\<lparr>trace := trace s @ map TimerForceOverflow (forced lastTimerPtr ?M)\<rparr>)"
        using "1.IH"(2) [OF True r(1) r(3) eq cfg'] by simp
      have "overflow_loop index motorCount lastTimerPtr s
              = overflow_loop (Suc index) motorCount lastTimerPtr s"
        using True r same by (subst overflow_loop.simps) simp
      also note ih
      also have "forced lastTimerPtr ?M
           = forced lastTimerPtr (map (\<lambda>k. Some (motor_tim s k)) [index..<motorCount])"
        unfolding up using same by simp
      finally show ?thesis .
    next
      case diff: False
      have neq: "tim (motor_port s index) \<noteq> lastTimerPtr" using diff r(5) by simp
      have cfg'': "\<And>k. Suc index \<le> k \<Longrightarrow> k < motorCount \<Longrightarrow>
          motor_configured (call_ext (TimerForceOverflow (tim (motor_port s index))) s) k"
        using cfg' by simp
      have ih: "overflow_loop (Suc index) motorCount ?t ?s' =
         Inr (?s'\<lparr>trace := trace ?s' @ map TimerForceOverflow (forced ?t ?M)\<rparr>)"
        using "1.IH"(1) [OF True r(1) r(3) neq cfg''] unfolding r(5) by simp
      have "overflow_loop index motorCount lastTimerPtr s
              = overflow_loop (Suc index) motorCount ?t ?s'"
        using True r diff by (subst overflow_loop.simps) simp
      also note ih
      also have "?s'\<lparr>trace := trace ?s' @ map TimerForceOverflow (forced ?t ?M)\<rparr>
           = s\<lparr>trace := trace s @ map TimerForceOverflow
               (forced lastTimerPtr (map (\<lambda>k. Some (motor_tim s k)) [index..<motorCount]))\<rparr>"
        unfolding up using diff by (simp add: call_ext_def)
      finally show ?thesis .
    qed
  qed
qed

lemma remdups_adj_Cons_hd: "remdups_adj (x # xs) = x # tl (remdups_adj (x # xs))"
  by (metis hd_remdups_adj list.sel(1) list.collapse remdups_adj_Nil_iff list.distinct(1))

lemma forced_remdups_adj: "forced l ts = tl (remdups_adj (l # ts))"
proof (induction ts arbitrary: l)
  case Nil
  show ?case by simp
next
  case (Cons t ts)
  show ?case
  proof (cases "t = l")
    case True
    then show ?thesis using Cons [of l] by simp
  next
    case False
    have "forced l (t # ts) = t # tl (remdups_adj (t # ts))"
      using False Cons [of t] by simp
    also have "\<dots> = remdups_adj (t # ts)" by (rule remdups_adj_Cons_hd [symmetric])
    also have "\<dots> = tl (remdups_adj (l # t # ts))" using False by simp
    finally show ?thesis .
  qed
qed

lemma forced_None_Some: "forced None (map Some ts) = map Some (remdups_adj ts)"
proof (cases ts)
  case Nil
  then show ?thesis by simp
next
  case (Cons t ts')
  have "forced None (map Some (t # ts')) = Some t # forced (Some t) (map Some ts')" by simp
  also have "\<dots> = Some t # tl (remdups_adj (Some t # map Some ts'))"
    by (simp only: forced_remdups_adj)
  also have "\<dots> = remdups_adj (map Some (t # ts'))"
    using remdups_adj_Cons_hd [of "Some t" "map Some ts'"] by simp
  also have "\<dots> = map Some (remdups_adj (t # ts'))"
    by (rule remdups_adj_map_injective) simp
  finally show ?thesis using Cons by simp
qed

section \<open>Oneshot completion and shutdown\<close>

lemma new_events_append [simp]:
  "trace s' = trace s @ es \<Longrightarrow> new_events s s' = es"
  by (simp add: new_events_def)

lemma overflow_calls_append:
  "overflow_calls (xs @ ys) = overflow_calls xs @ overflow_calls ys"
  by (induction xs rule: overflow_calls.induct) simp_all

lemma overflow_calls_overflows [simp]:
  "overflow_calls (map TimerForceOverflow ts) = ts"
  by (induction ts) simp_all

lemma overflow_calls_overflows_comp [simp]:
  "overflow_calls (map (TimerForceOverflow \<circ> f) ts) = map f ts"
  by (induction ts) simp_all

lemma motor_configured_trace [simp]:
  "motor_configured (s\<lparr>trace := tr\<rparr>) k = motor_configured s k"
  by (simp add: motor_configured_def port_resolved_def motor_port_def split: option.splits)

lemma motor_configured_gate [simp]:
  "motor_configured (s\<lparr>pwmMotorsEnabled := b\<rparr>) k = motor_configured s k"
  by (simp add: motor_configured_def port_resolved_def motor_port_def split: option.splits)

lemma motor_reg_gate [simp]:
  "motor_reg (s\<lparr>pwmMotorsEnabled := b\<rparr>) k = motor_reg s k"
  by (simp add: motor_reg_def motor_ccr_def motor_port_def)

lemma overflow_calls_stores [simp]:
  "overflow_calls (map (\<lambda>k. StoreCCR (g k) x) ks) = []"
  by (induction ks) simp_all

lemma count_list_distinct:
  "distinct xs \<Longrightarrow> x \<in> set xs \<Longrightarrow> count_list xs x = 1"
  by (induction xs) (auto simp: count_list_0_iff)

text \<open>The state after the whole oneshot completion, for configured slots.\<close>

lemma pwmCompleteOneshotMotorUpdate_configured:
  assumes "\<And>k. k < unat N \<Longrightarrow> motor_configured s k"
  shows "pwmCompleteOneshotMotorUpdate N s =
           Inr (zero_all [0..<unat N]
                  (s\<lparr>trace := trace s @ map TimerForceOverflow
                      (map Some (remdups_adj (map (motor_tim s) [0..<unat N])))\<rparr>))"
proof -
  let ?ts = "map Some (remdups_adj (map (motor_tim s) [0..<unat N]))"
  let ?s1 = "s\<lparr>trace := trace s @ map TimerForceOverflow ?ts\<rparr>"
  have f: "forced None (map (\<lambda>k. Some (motor_tim s k)) [0..<unat N]) = ?ts"
    using forced_None_Some [of "map (motor_tim s) [0..<unat N]"] by (simp add: comp_def)
  have o: "overflow_loop 0 (unat N) None s = Inr ?s1"
    using overflow_loop_configured [of 0 "unat N" s None] assms unfolding f by simp
  have cfg1: "\<And>k. k < unat N \<Longrightarrow> motor_configured ?s1 k"
    using assms by simp
  have z: "zero_loop 0 (unat N) ?s1 = Inr (zero_all [0..<unat N] ?s1)"
    by (rule zero_loop_from_0) (rule cfg1)
  show ?thesis
    unfolding pwmCompleteOneshotMotorUpdate_def o using z by simp
qed

lemma motor_ccr_trace [simp]: "motor_ccr (s\<lparr>trace := tr\<rparr>) k = motor_ccr s k"
  by (simp add: motor_ccr_def motor_port_def)

lemma oneshot_post:
  assumes "\<And>k. k < unat N \<Longrightarrow> motor_configured s k"
  shows "\<exists>s'. pwmCompleteOneshotMotorUpdate N s = Inr s'
           \<and> trace s' = trace s @ map TimerForceOverflow
                 (map Some (remdups_adj (map (motor_tim s) [0..<unat N])))
               @ map (\<lambda>k. StoreCCR (motor_ccr s k) 0) [0..<unat N]
           \<and> (\<forall>k<unat N. motor_reg s' k = 0)"
proof -
  let ?s1 = "s\<lparr>trace := trace s @ map TimerForceOverflow
                (map Some (remdups_adj (map (motor_tim s) [0..<unat N])))\<rparr>"
  let ?s' = "zero_all [0..<unat N] ?s1"
  have "pwmCompleteOneshotMotorUpdate N s = Inr ?s'"
    by (rule pwmCompleteOneshotMotorUpdate_configured) (rule assms)
  moreover have "trace ?s' = trace s @ map TimerForceOverflow
                 (map Some (remdups_adj (map (motor_tim s) [0..<unat N])))
               @ map (\<lambda>k. StoreCCR (motor_ccr s k) 0) [0..<unat N]"
    by simp
  moreover have "\<forall>k<unat N. motor_reg ?s' k = 0"
    by (simp add: motor_reg_zero_all)
  ultimately show ?thesis by blast
qed

lemma is_store_not_overflow: "is_store e \<Longrightarrow> \<not> is_overflow e"
  by (cases e) simp_all

lemma ex_oneshot_configured:
  "motor_configured (ex_oneshot a b c) 0"
  "motor_configured (ex_oneshot a b c) 1"
  "motor_configured (ex_oneshot a b c) 2"
  by (simp_all add: motor_configured_def ex_oneshot_def port_resolved_def motor_port_def
      oneshot_port_def)

lemma ex_oneshot_tim:
  "motor_tim (ex_oneshot a b c) 0 = a"
  "motor_tim (ex_oneshot a b c) 1 = b"
  "motor_tim (ex_oneshot a b c) 2 = c"
  by (simp_all add: motor_tim_def ex_oneshot_def motor_port_def oneshot_port_def)

lemma ex_oneshot_ccr:
  "motor_ccr (ex_oneshot a b c) 0 = (a, CCR1)"
  "motor_ccr (ex_oneshot a b c) 1 = (b, CCR2)"
  "motor_ccr (ex_oneshot a b c) 2 = (c, CCR3)"
  by (simp_all add: motor_ccr_def ex_oneshot_def motor_port_def oneshot_port_def)

lemma upt_3: "[0..<unat (3 :: uint8_t)] = [0, 1, 2]"
  by (simp add: upt_rec)

lemma all_less_3: "(\<forall>k<unat (3 :: uint8_t). P k) \<longleftrightarrow> P 0 \<and> P 1 \<and> P 2"
proof -
  have u: "unat (3 :: uint8_t) = 3" by simp
  have "\<And>k::nat. k < 3 \<longleftrightarrow> k = 0 \<or> k = 1 \<or> k = 2" by auto
  then show ?thesis unfolding u by auto
qed


text \<open>
  Claim C1, as the code has it. With the motor slots below \<open>N\<close> configured,
  \<open>pwmCompleteOneshotMotorUpdate\<close> succeeds; the timers it forces to overflow are,
  in order, the timers of the motors 0 to \<open>N - 1\<close> with adjacent repetitions removed,
  so one call for every maximal run of adjacent motors that share a timer. When no
  timer comes back after another one (the list without adjacent repetitions is
  distinct), every timer of these motors is forced exactly once. After the call the
  compare register of every one of the \<open>N\<close> motors reads 0.
\<close>

theorem oneshot_overflow_per_timer_run:
  assumes cfg: "\<forall>k<unat N. motor_configured s k"
  shows "\<exists>s'. pwmCompleteOneshotMotorUpdate N s = Inr s'
           \<and> overflow_calls (new_events s s')
               = map Some (remdups_adj (map (motor_tim s) [0..<unat N]))
           \<and> (distinct (remdups_adj (map (motor_tim s) [0..<unat N]))
                \<longrightarrow> (\<forall>k<unat N. overflows_forced N s (motor_tim s k) = Some 1))
           \<and> (\<forall>k<unat N. motor_reg s' k = 0)"
proof -
  let ?ts = "remdups_adj (map (motor_tim s) [0..<unat N])"
  obtain s' where run: "pwmCompleteOneshotMotorUpdate N s = Inr s'"
    and tr: "trace s' = trace s @ map TimerForceOverflow (map Some ?ts)
               @ map (\<lambda>k. StoreCCR (motor_ccr s k) 0) [0..<unat N]"
    and regs: "\<forall>k<unat N. motor_reg s' k = 0"
    using oneshot_post [of N s] cfg by blast
  have calls: "overflow_calls (new_events s s') = map Some ?ts"
    using tr by (simp add: overflow_calls_append)
  have once: "overflows_forced N s (motor_tim s k) = Some 1"
    if d: "distinct ?ts" and k: "k < unat N" for k
  proof -
    have "motor_tim s k \<in> set ?ts" using k by simp
    then have "Some (motor_tim s k) \<in> set (map Some ?ts)" by simp
    moreover have "distinct (map Some ?ts)" using d by (simp add: distinct_map)
    ultimately have "count_list (map Some ?ts) (Some (motor_tim s k)) = 1"
      by (intro count_list_distinct)
    then show ?thesis by (simp add: overflows_forced_def run calls)
  qed
  show ?thesis using run calls once regs by blast
qed

theorem oneshot_overflow_per_timer_run_witness:
  "motor_configured (ex_oneshot 1 1 2) 0 \<and> motor_configured (ex_oneshot 1 1 2) 1
   \<and> motor_configured (ex_oneshot 1 1 2) 2
   \<and> distinct (remdups_adj (map (motor_tim (ex_oneshot 1 1 2)) [0..<unat (3 :: uint8_t)]))
   \<and> (\<exists>s'. pwmCompleteOneshotMotorUpdate 3 (ex_oneshot 1 1 2) = Inr s'
         \<and> overflow_calls (new_events (ex_oneshot 1 1 2) s') = [Some 1, Some 2]
         \<and> motor_reg s' 0 = 0 \<and> motor_reg s' 1 = 0 \<and> motor_reg s' 2 = 0)
   \<and> overflows_forced 3 (ex_oneshot 1 1 2) 1 = Some 1
   \<and> overflows_forced 3 (ex_oneshot 1 1 2) 2 = Some 1"
proof -
  let ?s = "ex_oneshot 1 1 2"
  note h = ex_oneshot_configured [of 1 1 2]
  have cfg: "\<forall>k<unat (3 :: uint8_t). motor_configured ?s k"
    unfolding all_less_3 using h by blast
  have ts: "remdups_adj (map (motor_tim ?s) [0..<unat (3 :: uint8_t)]) = [1, 2]"
    unfolding upt_3 list.map ex_oneshot_tim by simp
  have d: "distinct (remdups_adj (map (motor_tim ?s) [0..<unat (3 :: uint8_t)]))"
    unfolding ts by simp
  obtain s' where run: "pwmCompleteOneshotMotorUpdate 3 ?s = Inr s'"
    and calls: "overflow_calls (new_events ?s s')
                  = map Some (remdups_adj (map (motor_tim ?s) [0..<unat (3 :: uint8_t)]))"
    and once: "\<forall>k<unat (3 :: uint8_t). overflows_forced 3 ?s (motor_tim ?s k) = Some 1"
    and regs: "\<forall>k<unat (3 :: uint8_t). motor_reg s' k = 0"
    using oneshot_overflow_per_timer_run [OF cfg] d by blast
  have calls': "overflow_calls (new_events ?s s') = [Some 1, Some 2]"
    using calls unfolding ts by simp
  have once': "overflows_forced 3 ?s 1 = Some 1 \<and> overflows_forced 3 ?s 2 = Some 1"
    using once unfolding all_less_3 ex_oneshot_tim by blast
  have regs': "motor_reg s' 0 = 0 \<and> motor_reg s' 1 = 0 \<and> motor_reg s' 2 = 0"
    using regs unfolding all_less_3 by blast
  show ?thesis using h d run calls' once' regs' by blast
qed

text \<open>
  The claim as stated, once per distinct timer, fails when two motors of one timer
  are separated by a motor of another timer: with the motors on the timers 1, 2, 1
  the overflow of timer 1 is forced twice.
\<close>

theorem oneshot_once_per_timer_counterexample:
  "motor_configured (ex_oneshot 1 2 1) 0 \<and> motor_configured (ex_oneshot 1 2 1) 1
   \<and> motor_configured (ex_oneshot 1 2 1) 2
   \<and> motor_tim (ex_oneshot 1 2 1) 0 = 1
   \<and> overflows_forced 3 (ex_oneshot 1 2 1) 1 = Some 2"
proof -
  let ?s = "ex_oneshot 1 2 1"
  note h = ex_oneshot_configured [of 1 2 1]
  have "\<forall>k<unat (3 :: uint8_t). motor_configured ?s k"
    unfolding all_less_3 using h by blast
  then have "\<And>k. k < unat (3 :: uint8_t) \<Longrightarrow> motor_configured ?s k" by blast
  then have run: "pwmCompleteOneshotMotorUpdate 3 ?s =
           Inr (zero_all [0..<unat (3 :: uint8_t)]
                  (?s\<lparr>trace := trace ?s @ map TimerForceOverflow
                      (map Some (remdups_adj (map (motor_tim ?s) [0..<unat (3 :: uint8_t)])))\<rparr>))"
    by (rule pwmCompleteOneshotMotorUpdate_configured)
  have ts: "remdups_adj (map (motor_tim ?s) [0..<unat (3 :: uint8_t)]) = [1, 2, 1]"
    unfolding upt_3 list.map ex_oneshot_tim by simp
  have c: "overflows_forced 3 ?s 1 = Some 2"
    unfolding overflows_forced_def run ts by (simp add: overflow_calls_append)
  show ?thesis using h ex_oneshot_tim(1) [of 1 2 1] c by blast
qed

text \<open>
  Claim C2. With the motor slots below \<open>N\<close> configured, the events of
  \<open>pwmCompleteOneshotMotorUpdate\<close> are the force-overflow calls followed by the
  \<open>N\<close> stores of 0, in index order: no force-overflow call comes after a register
  store.
\<close>

theorem oneshot_overflows_before_stores:
  assumes cfg: "\<forall>k<unat N. motor_configured s k"
  shows "\<exists>s'. pwmCompleteOneshotMotorUpdate N s = Inr s'
           \<and> new_events s s'
               = map TimerForceOverflow (map Some (remdups_adj (map (motor_tim s) [0..<unat N])))
                 @ map (\<lambda>k. StoreCCR (motor_ccr s k) 0) [0..<unat N]
           \<and> (\<forall>i j. i < length (new_events s s') \<and> j < length (new_events s s')
                 \<and> is_store (new_events s s' ! i) \<and> is_overflow (new_events s s' ! j)
                 \<longrightarrow> j < i)"
proof -
  let ?A = "map TimerForceOverflow (map Some (remdups_adj (map (motor_tim s) [0..<unat N])))"
  let ?B = "map (\<lambda>k. StoreCCR (motor_ccr s k) (0 :: 'a word)) [0..<unat N]"
  obtain s' where run: "pwmCompleteOneshotMotorUpdate N s = Inr s'"
    and tr: "trace s' = trace s @ ?A @ ?B"
    using oneshot_post [of N s] cfg by blast
  have ev: "new_events s s' = ?A @ ?B" using tr by simp
  have A: "is_overflow (?A ! i)" if "i < length ?A" for i using that by simp
  have B: "is_store (?B ! i)" if "i < length ?B" for i using that by simp
  have ord: "j < i"
    if "i < length (?A @ ?B)" "j < length (?A @ ?B)"
      "is_store ((?A @ ?B) ! i)" "is_overflow ((?A @ ?B) ! j)" for i j
  proof -
    have "length ?A \<le> i"
    proof (rule ccontr)
      assume "\<not> length ?A \<le> i"
      then have "i < length ?A" by simp
      then have "is_overflow ((?A @ ?B) ! i)" using A [of i] by (simp add: nth_append)
      then show False using that(3) is_store_not_overflow by blast
    qed
    moreover have "j < length ?A"
    proof (rule ccontr)
      assume n: "\<not> j < length ?A"
      then have "j - length ?A < length ?B" using that(2) by simp
      then have "is_store ((?A @ ?B) ! j)" using B [of "j - length ?A"] n by (simp add: nth_append)
      then show False using that(4) is_store_not_overflow by blast
    qed
    ultimately show ?thesis by simp
  qed
  show ?thesis using run ev ord by (metis (no_types, lifting))
qed

theorem oneshot_overflows_before_stores_witness:
  "motor_configured (ex_oneshot 1 1 2) 0 \<and> motor_configured (ex_oneshot 1 1 2) 1
   \<and> motor_configured (ex_oneshot 1 1 2) 2
   \<and> (\<exists>s'. pwmCompleteOneshotMotorUpdate 3 (ex_oneshot 1 1 2) = Inr s'
         \<and> new_events (ex_oneshot 1 1 2) s'
             = [TimerForceOverflow (Some 1), TimerForceOverflow (Some 2),
                StoreCCR (1, CCR1) 0, StoreCCR (1, CCR2) 0, StoreCCR (2, CCR3) 0])"
proof -
  let ?s = "ex_oneshot 1 1 2"
  note h = ex_oneshot_configured [of 1 1 2]
  have cfg: "\<forall>k<unat (3 :: uint8_t). motor_configured ?s k"
    unfolding all_less_3 using h by blast
  have ts: "remdups_adj (map (motor_tim ?s) [0..<unat (3 :: uint8_t)]) = [1, 2]"
    unfolding upt_3 list.map ex_oneshot_tim by simp
  have st: "map (\<lambda>k. StoreCCR (motor_ccr ?s k) (0 :: 32 word)) [0..<unat (3 :: uint8_t)]
      = [StoreCCR (1, CCR1) 0, StoreCCR (1, CCR2) 0, StoreCCR (2, CCR3) 0]"
    unfolding upt_3 list.map ex_oneshot_ccr by simp
  obtain s' where run: "pwmCompleteOneshotMotorUpdate 3 ?s = Inr s'"
    and ev: "new_events ?s s'
       = map TimerForceOverflow (map Some (remdups_adj (map (motor_tim ?s) [0..<unat (3 :: uint8_t)])))
         @ map (\<lambda>k. StoreCCR (motor_ccr ?s k) 0) [0..<unat (3 :: uint8_t)]"
    using oneshot_overflows_before_stores [OF cfg] by blast
  have ev': "new_events ?s s'
             = [TimerForceOverflow (Some 1), TimerForceOverflow (Some 2),
                StoreCCR (1, CCR1) 0, StoreCCR (1, CCR2) 0, StoreCCR (2, CCR3) 0]"
    using ev unfolding ts st by simp
  show ?thesis using h run ev' by blast
qed

text \<open>
  Claim C7. With the motor slots below \<open>count\<close> configured,
  \<open>pwmShutdownPulsesForAllMotors\<close> succeeds from the enabled and from the disabled
  gate, the compare registers of the motors 0 to \<open>count - 1\<close> read 0 afterwards in
  both cases, and the two final states differ in the gate only, which the call leaves
  as it was.
\<close>

theorem shutdown_zeroes_regardless_of_gate:
  assumes cfg: "\<forall>k<unat n. motor_configured s k"
  shows "\<exists>s1 s2. pwmShutdownPulsesForAllMotors n (s\<lparr>pwmMotorsEnabled := True\<rparr>) = Inr s1
           \<and> pwmShutdownPulsesForAllMotors n (s\<lparr>pwmMotorsEnabled := False\<rparr>) = Inr s2
           \<and> (\<forall>k<unat n. motor_reg s1 k = 0 \<and> motor_reg s2 k = 0)
           \<and> s2 = s1\<lparr>pwmMotorsEnabled := False\<rparr> \<and> pwmMotorsEnabled s1"
proof -
  have c: "\<And>b k. k < unat n \<Longrightarrow> motor_configured (s\<lparr>pwmMotorsEnabled := b\<rparr>) k"
    using cfg by simp
  have run: "pwmShutdownPulsesForAllMotors n (s\<lparr>pwmMotorsEnabled := b\<rparr>)
         = Inr (zero_all [0..<unat n] (s\<lparr>pwmMotorsEnabled := b\<rparr>))" for b
    unfolding pwmShutdownPulsesForAllMotors_def by (rule zero_loop_from_0) (rule c)
  have g: "zero_all ks (s\<lparr>pwmMotorsEnabled := False\<rparr>)
         = (zero_all ks (s\<lparr>pwmMotorsEnabled := True\<rparr>))\<lparr>pwmMotorsEnabled := False\<rparr>" for ks
    by (simp add: zero_all_def motor_ccr_def motor_port_def fold_stored_gate)
  show ?thesis
    using run [of True] run [of False] g by (simp add: motor_reg_zero_all)
qed

theorem shutdown_zeroes_regardless_of_gate_witness:
  "motor_configured (ex_oneshot 1 1 2) 0 \<and> motor_configured (ex_oneshot 1 1 2) 1
   \<and> motor_configured (ex_oneshot 1 1 2) 2
   \<and> motor_reg (ex_oneshot 1 1 2) 0 = 1500
   \<and> (\<exists>s1 s2. pwmShutdownPulsesForAllMotors 3 ((ex_oneshot 1 1 2)\<lparr>pwmMotorsEnabled := True\<rparr>) = Inr s1
         \<and> pwmShutdownPulsesForAllMotors 3 ((ex_oneshot 1 1 2)\<lparr>pwmMotorsEnabled := False\<rparr>) = Inr s2
         \<and> motor_reg s1 0 = 0 \<and> motor_reg s1 1 = 0 \<and> motor_reg s1 2 = 0
         \<and> motor_reg s2 0 = 0 \<and> motor_reg s2 1 = 0 \<and> motor_reg s2 2 = 0
         \<and> s2 = s1\<lparr>pwmMotorsEnabled := False\<rparr> \<and> pwmMotorsEnabled s1)"
proof -
  let ?s = "ex_oneshot 1 1 2"
  note h = ex_oneshot_configured [of 1 1 2]
  have cfg: "\<forall>k<unat (3 :: uint8_t). motor_configured ?s k"
    unfolding all_less_3 using h by blast
  have r: "motor_reg ?s 0 = 1500"
    unfolding motor_reg_def ex_oneshot_ccr by (simp add: ex_oneshot_def)
  obtain s1 s2 where
    a: "pwmShutdownPulsesForAllMotors 3 (?s\<lparr>pwmMotorsEnabled := True\<rparr>) = Inr s1"
       "pwmShutdownPulsesForAllMotors 3 (?s\<lparr>pwmMotorsEnabled := False\<rparr>) = Inr s2"
    and z: "\<forall>k<unat (3 :: uint8_t). motor_reg s1 k = 0 \<and> motor_reg s2 k = 0"
    and e: "s2 = s1\<lparr>pwmMotorsEnabled := False\<rparr>" "pwmMotorsEnabled s1"
    using shutdown_zeroes_regardless_of_gate [OF cfg] by blast
  have z': "motor_reg s1 0 = 0 \<and> motor_reg s1 1 = 0 \<and> motor_reg s1 2 = 0
      \<and> motor_reg s2 0 = 0 \<and> motor_reg s2 1 = 0 \<and> motor_reg s2 2 = 0"
    using z unfolding all_less_3 by blast
  show ?thesis using h r a z' e by blast
qed

section \<open>The motor enable gate\<close>

subsection \<open>Servo writes\<close>

lemma servo_configured_reads:
  assumes "servo_configured s i"
  shows "servos_at s i = Inr (servos s ! i)"
    and "servos s ! i \<noteq> None"
    and "port_at s (servos s ! i) = Inr (servo_port s i)"
    and "ccr (servo_port s i) = Some (servo_ccr s i)"
  using assms
  by (auto simp: servo_configured_def servos_at_def port_at_def port_resolved_def
      servo_port_def servo_ccr_def split: option.splits)

lemma pwmWriteServo_configured:
  assumes cfg: "servo_configured s (unat j)" and rng: "unat j < MAX_SERVOS e"
  shows "pwmWriteServo e j v s = Inr (stored (servo_ccr s (unat j)) (standard_value v) s)"
  using servo_configured_reads [OF cfg] rng
  by (simp add: pwmWriteServo_def store_ccr_Some)

lemma servo_configured_gate [simp]:
  "servo_configured (s\<lparr>pwmMotorsEnabled := b\<rparr>) k = servo_configured s k"
  by (simp add: servo_configured_def port_resolved_def split: option.splits)

lemma servo_ccr_gate [simp]: "servo_ccr (s\<lparr>pwmMotorsEnabled := b\<rparr>) k = servo_ccr s k"
  by (simp add: servo_ccr_def servo_port_def)

lemma servo_ccr_stored [simp]: "servo_ccr (stored a x s) k = servo_ccr s k"
  by (simp add: servo_ccr_def servo_port_def)

lemma motor_port_gate [simp]: "motor_port (s\<lparr>pwmMotorsEnabled := b\<rparr>) k = motor_port s k"
  by (simp add: motor_port_def)

lemma motor_ccr_gate [simp]: "motor_ccr (s\<lparr>pwmMotorsEnabled := b\<rparr>) k = motor_ccr s k"
  by (simp add: motor_ccr_def)

text \<open>
  Claim C4. The motor part holds for every configured motor index below
  \<open>MAX_MOTORS\<close>, whatever the servo table holds: after \<open>pwmDisableMotors\<close> a motor
  write returns the state as it was, so the motor's register is unchanged; after
  \<open>pwmEnableMotors\<close> the same write leaves the register holding the value itself for
  a standard port, \<open>(v - 1000) * period / 1000\<close> for a brushed port and a value from
  1000 to 2000, the negated magnitude \<open>(1000 - v) * period / 1000\<close> modulo \<open>2 ^ w\<close>
  for a brushed port and a value below 1000, and in every case the value the port's
  write function computes. The servo part holds for every configured servo index below
  \<open>MAX_SERVOS\<close>, whatever the motor table holds: a servo write succeeds from the
  disabled and from the enabled gate, stores the value in the servo's register, and
  leaves the same registers and the same events in both cases.
\<close>

theorem gate_suppresses_motor_writes_only:
  "(motor_configured s (unat i) \<and> unat i < MAX_MOTORS e \<longrightarrow>
      pwmWriteMotor e i v (pwmDisableMotors s) = Inr (pwmDisableMotors s)
      \<and> motor_reg_after_write e i v (pwmDisableMotors s) = Some (motor_reg s (unat i))
      \<and> (pwmWritePtr (motor_port s (unat i)) = Some WriteStandard \<longrightarrow>
            motor_reg_after_write e i v (pwmEnableMotors (pwmDisableMotors s))
              = Some (ucast v))
      \<and> (pwmWritePtr (motor_port s (unat i)) = Some WriteBrushed
            \<and> 1000 \<le> unat v \<and> unat v \<le> 2000 \<longrightarrow>
            motor_reg_after_write e i v (pwmEnableMotors (pwmDisableMotors s))
              = Some (of_nat (brushed_formula (unat v)
                               (unat (period (motor_port s (unat i)))))))
      \<and> (pwmWritePtr (motor_port s (unat i)) = Some WriteBrushed \<and> unat v < 1000 \<longrightarrow>
            motor_reg_after_write e i v (pwmEnableMotors (pwmDisableMotors s))
              = Some (- of_nat (brushed_magnitude (unat v)
                                 (unat (period (motor_port s (unat i)))))))
      \<and> motor_reg_after_write e i v (pwmEnableMotors (pwmDisableMotors s))
          = Some (transformed_value (the (pwmWritePtr (motor_port s (unat i))))
                    (period (motor_port s (unat i))) v))
   \<and> (servo_configured s (unat j) \<and> unat j < MAX_SERVOS e \<longrightarrow>
        (\<exists>sd se. pwmWriteServo e j u (pwmDisableMotors s) = Inr sd
           \<and> pwmWriteServo e j u (pwmEnableMotors s) = Inr se
           \<and> servo_reg sd (unat j) = ucast u \<and> servo_reg se (unat j) = ucast u
           \<and> ccr_mem sd = ccr_mem se
           \<and> new_events (pwmDisableMotors s) sd = new_events (pwmEnableMotors s) se))"
proof (intro conjI impI)
  assume "motor_configured s (unat i) \<and> unat i < MAX_MOTORS e"
  then have mc: "motor_configured s (unat i)" and mr: "unat i < MAX_MOTORS e" by simp_all
  have len: "unat i < length (motors s)" using mc by (simp add: motor_configured_def)
  show off: "pwmWriteMotor e i v (pwmDisableMotors s) = Inr (pwmDisableMotors s)"
    using len by (intro pwmWriteMotor_disabled) (simp_all add: pwmDisableMotors_def)
  show "motor_reg_after_write e i v (pwmDisableMotors s) = Some (motor_reg s (unat i))"
    using off by (simp add: motor_reg_after_write_def pwmDisableMotors_def)
  let ?s2 = "pwmEnableMotors (pwmDisableMotors s)"
  have "pwmWriteMotor e i v ?s2 =
           Inr (stored (motor_ccr ?s2 (unat i))
                 (transformed_value (the (pwmWritePtr (motor_port ?s2 (unat i))))
                    (period (motor_port ?s2 (unat i))) v) ?s2)"
    using mc mr
    by (intro pwmWriteMotor_configured) (simp_all add: pwmEnableMotors_def pwmDisableMotors_def)
  then show on_reg: "motor_reg_after_write e i v ?s2
             = Some (transformed_value (the (pwmWritePtr (motor_port s (unat i))))
                       (period (motor_port s (unat i))) v)"
    by (simp add: motor_reg_after_write_def motor_reg_def)
      (simp add: pwmEnableMotors_def pwmDisableMotors_def)
  show "motor_reg_after_write e i v ?s2 = Some (ucast v)"
    if "pwmWritePtr (motor_port s (unat i)) = Some WriteStandard"
    using on_reg that by (simp add: transformed_value_def standard_value_def)
  show "motor_reg_after_write e i v ?s2
          = Some (of_nat (brushed_formula (unat v) (unat (period (motor_port s (unat i))))))"
    if "pwmWritePtr (motor_port s (unat i)) = Some WriteBrushed
          \<and> 1000 \<le> unat v \<and> unat v \<le> 2000"
    using on_reg that by (simp add: transformed_value_def brushed_value_in_range)
  show "motor_reg_after_write e i v ?s2
          = Some (- of_nat (brushed_magnitude (unat v) (unat (period (motor_port s (unat i))))))"
    if "pwmWritePtr (motor_port s (unat i)) = Some WriteBrushed \<and> unat v < 1000"
    using on_reg that by (simp add: transformed_value_def brushed_value_below)
next
  assume "servo_configured s (unat j) \<and> unat j < MAX_SERVOS e"
  then have sc: "servo_configured s (unat j)" and sr: "unat j < MAX_SERVOS e" by simp_all
  let ?a = "servo_ccr s (unat j)"
  have sd: "pwmWriteServo e j u (pwmDisableMotors s)
              = Inr (stored ?a (standard_value u) (pwmDisableMotors s))"
    using pwmWriteServo_configured [of "pwmDisableMotors s" j e u] sc sr
    by (simp add: pwmDisableMotors_def)
  have se: "pwmWriteServo e j u (pwmEnableMotors s)
              = Inr (stored ?a (standard_value u) (pwmEnableMotors s))"
    using pwmWriteServo_configured [of "pwmEnableMotors s" j e u] sc sr
    by (simp add: pwmEnableMotors_def)
  have regs: "servo_reg (stored ?a (standard_value u) (pwmDisableMotors s)) (unat j) = ucast u"
    "servo_reg (stored ?a (standard_value u) (pwmEnableMotors s)) (unat j) = ucast u"
    by (simp_all add: servo_reg_def standard_value_def pwmDisableMotors_def pwmEnableMotors_def)
  have same: "ccr_mem (stored ?a (standard_value u) (pwmDisableMotors s))
      = ccr_mem (stored ?a (standard_value u) (pwmEnableMotors s))"
    "new_events (pwmDisableMotors s) (stored ?a (standard_value u) (pwmDisableMotors s))
      = new_events (pwmEnableMotors s) (stored ?a (standard_value u) (pwmEnableMotors s))"
    by (simp_all add: pwmDisableMotors_def pwmEnableMotors_def)
  show "\<exists>sd se. pwmWriteServo e j u (pwmDisableMotors s) = Inr sd
           \<and> pwmWriteServo e j u (pwmEnableMotors s) = Inr se
           \<and> servo_reg sd (unat j) = ucast u \<and> servo_reg se (unat j) = ucast u
           \<and> ccr_mem sd = ccr_mem se
           \<and> new_events (pwmDisableMotors s) sd = new_events (pwmEnableMotors s) se"
    using sd se regs same by blast
qed

lemma ex_state_servo0:
  "servo_configured ex_state (unat (0 :: uint8_t))"
  "unat (0 :: uint8_t) < MAX_SERVOS ex_env"
  by (simp_all add: servo_configured_def ex_state_def ex_env_def port_resolved_def)

lemma ex_state_motor1:
  "motor_configured ex_state (unat (1 :: uint8_t))"
  "unat (1 :: uint8_t) < MAX_MOTORS ex_env"
  "pwmWritePtr (motor_port ex_state (unat (1 :: uint8_t))) = Some WriteStandard"
  "motor_reg ex_state (unat (1 :: uint8_t)) = 1500"
  by (simp_all add: motor_configured_def ex_state_def ex_env_def port_resolved_def
      motor_port_def motor_reg_def motor_ccr_def)

lemma ex_oneshot_motor0:
  "motor_configured (ex_oneshot 1 1 2) (unat (0 :: uint8_t))"
  "unat (0 :: uint8_t) < MAX_MOTORS ex_env"
  "pwmWritePtr (motor_port (ex_oneshot 1 1 2) (unat (0 :: uint8_t))) = Some WriteStandard"
  "motor_reg (ex_oneshot 1 1 2) (unat (0 :: uint8_t)) = 1500"
  "servos (ex_oneshot 1 1 2) = [None, None, None, None, None, None, None, None]"
  by (simp_all add: motor_configured_def ex_oneshot_def oneshot_port_def ex_env_def
      port_resolved_def motor_port_def motor_reg_def motor_ccr_def)

lemma ex_servo_only:
  "servo_configured (ex_state\<lparr>motors := []\<rparr>) (unat (0 :: uint8_t))"
  by (simp add: servo_configured_def ex_state_def port_resolved_def)

theorem gate_suppresses_motor_writes_only_witness:
  "motor_configured ex_state (unat (1 :: uint8_t)) \<and> unat (1 :: uint8_t) < MAX_MOTORS ex_env
   \<and> pwmWritePtr (motor_port ex_state (unat (1 :: uint8_t))) = Some WriteStandard
   \<and> pwmWriteMotor ex_env 1 1250 (pwmDisableMotors ex_state) = Inr (pwmDisableMotors ex_state)
   \<and> motor_reg_after_write ex_env 1 1250 (pwmDisableMotors ex_state) = Some 1500
   \<and> motor_reg_after_write ex_env 1 1250 (pwmEnableMotors (pwmDisableMotors ex_state))
        = Some 1250
   \<and> motor_configured ex_state (unat (0 :: uint8_t)) \<and> unat (0 :: uint8_t) < MAX_MOTORS ex_env
   \<and> pwmWritePtr (motor_port ex_state (unat (0 :: uint8_t))) = Some WriteBrushed
   \<and> 1000 \<le> unat (1200 :: uint16_t) \<and> unat (1200 :: uint16_t) \<le> 2000
   \<and> motor_reg_after_write ex_env 0 1200 (pwmEnableMotors (pwmDisableMotors ex_state))
        = Some 100
   \<and> unat (998 :: uint16_t) < 1000
   \<and> motor_reg_after_write ex_env 0 998 (pwmEnableMotors (pwmDisableMotors ex_state))
        = Some 4294967295
   \<and> motor_configured (ex_oneshot 1 1 2) (unat (0 :: uint8_t))
   \<and> servos (ex_oneshot 1 1 2) = [None, None, None, None, None, None, None, None]
   \<and> motor_reg_after_write ex_env 0 1250 (pwmDisableMotors (ex_oneshot 1 1 2)) = Some 1500
   \<and> motor_reg_after_write ex_env 0 1250
        (pwmEnableMotors (pwmDisableMotors (ex_oneshot 1 1 2))) = Some 1250
   \<and> servo_configured ex_state (unat (0 :: uint8_t)) \<and> unat (0 :: uint8_t) < MAX_SERVOS ex_env
   \<and> (\<exists>sd se. pwmWriteServo ex_env 0 1800 (pwmDisableMotors ex_state) = Inr sd
         \<and> pwmWriteServo ex_env 0 1800 (pwmEnableMotors ex_state) = Inr se
         \<and> servo_reg sd (unat (0 :: uint8_t)) = 1800
         \<and> servo_reg se (unat (0 :: uint8_t)) = 1800)
   \<and> servo_configured (ex_state\<lparr>motors := []\<rparr>) (unat (0 :: uint8_t))
   \<and> (\<exists>sd se. pwmWriteServo ex_env 0 1800 (pwmDisableMotors (ex_state\<lparr>motors := []\<rparr>)) = Inr sd
         \<and> pwmWriteServo ex_env 0 1800 (pwmEnableMotors (ex_state\<lparr>motors := []\<rparr>)) = Inr se
         \<and> servo_reg sd (unat (0 :: uint8_t)) = 1800
         \<and> servo_reg se (unat (0 :: uint8_t)) = 1800)"
proof -
  note m1 = ex_state_motor1 and m0 = ex_state_motor0 and o0 = ex_oneshot_motor0
    and sv = ex_state_servo0 and so = ex_servo_only
  have u: "(ucast (1250 :: uint16_t) :: 32 word) = 1250" "(ucast (1800 :: uint16_t) :: 32 word) = 1800"
    by simp_all
  have v: "1000 \<le> unat (1200 :: uint16_t)" "unat (1200 :: uint16_t) \<le> 2000"
    "unat (998 :: uint16_t) < 1000" by simp_all
  have f: "(of_nat (brushed_formula (unat (1200 :: uint16_t)) (unat (500 :: uint16_t))) :: 32 word)
             = 100"
    "(- of_nat (brushed_magnitude (unat (998 :: uint16_t)) (unat (500 :: uint16_t))) :: 32 word)
             = 4294967295"
    by (simp_all add: brushed_formula_def brushed_magnitude_def)
  note std = gate_suppresses_motor_writes_only
    [where s = ex_state and e = ex_env and i = 1 and v = 1250, THEN conjunct1, rule_format]
  have a: "pwmWriteMotor ex_env 1 1250 (pwmDisableMotors ex_state) = Inr (pwmDisableMotors ex_state)"
    "motor_reg_after_write ex_env 1 1250 (pwmDisableMotors ex_state) = Some 1500"
    "motor_reg_after_write ex_env 1 1250 (pwmEnableMotors (pwmDisableMotors ex_state)) = Some 1250"
    using std m1(1,2,3) unfolding m1(4) u by blast+
  note br = gate_suppresses_motor_writes_only
    [where s = ex_state and e = ex_env and i = 0, THEN conjunct1, rule_format]
  have b: "motor_reg_after_write ex_env 0 1200 (pwmEnableMotors (pwmDisableMotors ex_state))
        = Some 100"
    "motor_reg_after_write ex_env 0 998 (pwmEnableMotors (pwmDisableMotors ex_state))
        = Some 4294967295"
    using br [where v = 1200] br [where v = 998] m0(1,2,4) v unfolding m0(5) f by blast+
  note os = gate_suppresses_motor_writes_only
    [where s = "ex_oneshot 1 1 2" and e = ex_env and i = 0 and v = 1250,
      THEN conjunct1, rule_format]
  have c: "motor_reg_after_write ex_env 0 1250 (pwmDisableMotors (ex_oneshot 1 1 2)) = Some 1500"
    "motor_reg_after_write ex_env 0 1250
        (pwmEnableMotors (pwmDisableMotors (ex_oneshot 1 1 2))) = Some 1250"
    using os o0(1,2,3) unfolding o0(4) u by blast+
  have d: "\<exists>sd se. pwmWriteServo ex_env 0 1800 (pwmDisableMotors ex_state) = Inr sd
         \<and> pwmWriteServo ex_env 0 1800 (pwmEnableMotors ex_state) = Inr se
         \<and> servo_reg sd (unat (0 :: uint8_t)) = 1800
         \<and> servo_reg se (unat (0 :: uint8_t)) = 1800"
    using gate_suppresses_motor_writes_only
      [where s = ex_state and e = ex_env and j = 0 and u = 1800, THEN conjunct2] sv
    unfolding u by blast
  have d': "\<exists>sd se. pwmWriteServo ex_env 0 1800 (pwmDisableMotors (ex_state\<lparr>motors := []\<rparr>)) = Inr sd
         \<and> pwmWriteServo ex_env 0 1800 (pwmEnableMotors (ex_state\<lparr>motors := []\<rparr>)) = Inr se
         \<and> servo_reg sd (unat (0 :: uint8_t)) = 1800
         \<and> servo_reg se (unat (0 :: uint8_t)) = 1800"
    using gate_suppresses_motor_writes_only
      [where s = "ex_state\<lparr>motors := []\<rparr>" and e = ex_env and j = 0 and u = 1800,
        THEN conjunct2] so sv(2)
    unfolding u by blast
  show ?thesis
    using m1(1,2,3) m0(1,2,4) o0(1,5) sv so v(1,2,3) a b c d d' by blast
qed

section \<open>Indices out of range and slots not configured\<close>

subsection \<open>Writes to slots that are not bound\<close>

lemma pwmWriteMotor_unbound:
  assumes "unat i < length (motors s)" "motors s ! unat i = None \<or> MAX_MOTORS e \<le> unat i"
  shows "pwmWriteMotor e i v s = Inr s"
  using assms by (auto simp: pwmWriteMotor_def motors_at_def)

lemma pwmWriteServo_unbound:
  assumes "unat i < length (servos s)" "servos s ! unat i = None \<or> MAX_SERVOS e \<le> unat i"
  shows "pwmWriteServo e i v s = Inr s"
  using assms by (auto simp: pwmWriteServo_def servos_at_def)

text \<open>
  Claim C5, at an index past the end of the tables. On the concrete board the motor
  table has 12 entries and the servo table 8. A motor write at index 12 and a servo
  write at index 8 read the table out of bounds before the range is tested.
\<close>

theorem write_past_table_end_reads_out_of_bounds:
  "length (motors ex_state) = MAX_PWM_MOTORS ex_env
   \<and> pwmWriteMotor ex_env 12 1500 ex_state = Inl OutOfBounds
   \<and> length (servos ex_state) = MAX_PWM_SERVOS ex_env
   \<and> pwmWriteServo ex_env 8 1500 ex_state = Inl OutOfBounds"
  by (simp add: pwmWriteMotor_def pwmWriteServo_def motors_at_def servos_at_def
      ex_state_def ex_env_def)

subsection \<open>Success of writes and shutdown\<close>

text \<open>
  Claim C6, as the code has it. In a state where every bound motor slot and every
  bound servo slot is configured, a motor write and a servo write succeed at every
  index inside their table, and \<open>pwmShutdownPulsesForAllMotors\<close> succeeds for every
  count such that the slots below it are configured. The shutdown loop has no range
  test and no null test of its own.
\<close>

theorem writes_and_shutdown_succeed_on_configured_slots:
  assumes inv_m: "\<forall>k<length (motors s). motors s ! k \<noteq> None \<longrightarrow> motor_configured s k"
    and inv_s: "\<forall>k<length (servos s). servos s ! k \<noteq> None \<longrightarrow> servo_configured s k"
  shows "(unat i < length (motors s) \<longrightarrow> (\<exists>s'. pwmWriteMotor e i v s = Inr s'))
         \<and> (unat j < length (servos s) \<longrightarrow> (\<exists>s'. pwmWriteServo e j v s = Inr s'))
         \<and> ((\<forall>k<unat n. motor_configured s k)
              \<longrightarrow> (\<exists>s'. pwmShutdownPulsesForAllMotors n s = Inr s'))"
proof -
  have m: "\<exists>s'. pwmWriteMotor e i v s = Inr s'" if len: "unat i < length (motors s)"
  proof (cases "motors s ! unat i \<noteq> None \<and> unat i < MAX_MOTORS e \<and> pwmMotorsEnabled s")
    case True
    then have "motor_configured s (unat i)" using inv_m len by blast
    then show ?thesis using pwmWriteMotor_configured [of s i e v] True by blast
  next
    case False
    then show ?thesis using len by (auto simp: pwmWriteMotor_def motors_at_def)
  qed
  have sv: "\<exists>s'. pwmWriteServo e j v s = Inr s'" if len: "unat j < length (servos s)"
  proof (cases "servos s ! unat j \<noteq> None \<and> unat j < MAX_SERVOS e")
    case True
    then have "servo_configured s (unat j)" using inv_s len by blast
    then show ?thesis using pwmWriteServo_configured [of s j e v] True by blast
  next
    case False
    then show ?thesis using len by (auto simp: pwmWriteServo_def servos_at_def)
  qed
  have sh: "\<exists>s'. pwmShutdownPulsesForAllMotors n s = Inr s'"
    if "\<forall>k<unat n. motor_configured s k"
    unfolding pwmShutdownPulsesForAllMotors_def
    using zero_loop_from_0 [of "unat n" s] that by blast
  show ?thesis using m sv sh by blast
qed

lemma ex_state_bound_slots:
  "\<forall>k<length (motors ex_state). motors ex_state ! k \<noteq> None \<longrightarrow> motor_configured ex_state k"
  "\<forall>k<length (servos ex_state). servos ex_state ! k \<noteq> None \<longrightarrow> servo_configured ex_state k"
  by (simp_all add: ex_state_def motor_configured_def servo_configured_def port_resolved_def
      motor_port_def eval_nat_numeral All_less_Suc)

theorem writes_and_shutdown_succeed_on_configured_slots_witness:
  "unat (5 :: uint8_t) < length (motors ex_state) \<and> unat (0 :: uint8_t) < length (servos ex_state)
   \<and> motor_configured ex_state 0 \<and> motor_configured ex_state 1 \<and> motor_configured ex_state 2
   \<and> (\<exists>s'. pwmWriteMotor ex_env 5 1500 ex_state = Inr s')
   \<and> (\<exists>s'. pwmWriteServo ex_env 0 1500 ex_state = Inr s')
   \<and> (\<exists>s'. pwmShutdownPulsesForAllMotors 3 ex_state = Inr s')"
proof -
  have l: "unat (5 :: uint8_t) < length (motors ex_state)"
    "unat (0 :: uint8_t) < length (servos ex_state)"
    by (simp_all add: ex_state_def)
  have c: "motor_configured ex_state 0" "motor_configured ex_state 1" "motor_configured ex_state 2"
    by (simp_all add: ex_state_def motor_configured_def port_resolved_def motor_port_def)
  have c': "\<forall>k<unat (3 :: uint8_t). motor_configured ex_state k"
    unfolding all_less_3 using c by blast
  show ?thesis
    using l c c'
      writes_and_shutdown_succeed_on_configured_slots [OF ex_state_bound_slots,
        where i = 5 and j = 0 and n = 3 and e = ex_env and v = 1500]
    by blast
qed

text \<open>
  The claim as stated, success for every count, fails at a count that reaches an
  unconfigured slot: with three motors configured, a shutdown of four dereferences
  the null pointer of slot 3.
\<close>

theorem shutdown_unconfigured_slot_counterexample:
  "unat (4 :: uint8_t) \<le> MAX_PWM_MOTORS ex_env \<and> unat (4 :: uint8_t) \<le> MAX_MOTORS ex_env
   \<and> motors ex_state ! 3 = None
   \<and> pwmShutdownPulsesForAllMotors 4 ex_state = Inl NullPointer"
  by (simp add: pwmShutdownPulsesForAllMotors_def zero_loop.simps zero_motor_ccr_def
      motors_at_def port_at_def store_ccr_def ex_state_def ex_env_def)

section \<open>The allocation cursor\<close>

lemma pwmOCConfig_cursor [simp]:
  "allocatedOutputPortCount (pwmOCConfig e t ch v s) = allocatedOutputPortCount s"
  "pwmOutputPorts (pwmOCConfig e t ch v s) = pwmOutputPorts s"
  by (simp_all add: pwmOCConfig_def split: option.splits)

lemma pwmGPIOConfig_cursor [simp]:
  "allocatedOutputPortCount (pwmGPIOConfig th s) = allocatedOutputPortCount s"
  "pwmOutputPorts (pwmGPIOConfig th s) = pwmOutputPorts s"
  by (simp_all add: pwmGPIOConfig_def)

lemma pwmOutConfig_cursor:
  assumes "pwmOutConfig e th mhz per v s = Inr (s', p)"
  shows "allocatedOutputPortCount s' = allocatedOutputPortCount s + 1"
    and "p = unat (allocatedOutputPortCount s)"
  using assms
  by (auto simp: pwmOutConfig_def Let_def split: option.splits if_splits)

lemma pwmOutConfig_unresolved:
  assumes "timerFindTimerHandle e (hw_tim th) = None"
  shows "pwmOutConfig e th mhz per v s =
           Inr (s\<lparr>allocatedOutputPortCount := allocatedOutputPortCount s + 1\<rparr>,
                unat (allocatedOutputPortCount s))"
  using assms by (simp add: pwmOutConfig_def)

lemma pwmOutConfig_succeeds:
  assumes "unat (allocatedOutputPortCount s) < length (pwmOutputPorts s)"
  shows "\<exists>s' p. pwmOutConfig e th mhz per v s = Inr (s', p)"
  using assms by (simp add: pwmOutConfig_def Let_def split: option.splits)

lemma bind_motor_cursor:
  assumes "bind_motor k fn r = Inr s'" "r = Inr (s1, p)"
  shows "allocatedOutputPortCount s' = allocatedOutputPortCount s1"
  using assms by (auto simp: bind_motor_def Let_def split: if_splits)

lemma motor_config_cursor:
  assumes "bind_motor k fn (pwmOutConfig e th mhz per v s) = Inr s'"
  shows "allocatedOutputPortCount s' = allocatedOutputPortCount s + 1"
proof (cases "pwmOutConfig e th mhz per v s")
  case (Inl f)
  then show ?thesis using assms by (simp add: bind_motor_def)
next
  case (Inr r)
  obtain s1 p where r: "r = (s1, p)" by (cases r)
  have "allocatedOutputPortCount s' = allocatedOutputPortCount s1"
    using bind_motor_cursor [OF assms] Inr r by simp
  then show ?thesis using pwmOutConfig_cursor(1) [of e th mhz per v s s1 p] Inr r by simp
qed

lemma store_ccr_cursor:
  "store_ccr r x s = Inr s' \<Longrightarrow> allocatedOutputPortCount s' = allocatedOutputPortCount s"
  by (auto simp: store_ccr_def split: option.splits)

lemma zero_motor_ccr_cursor:
  "zero_motor_ccr k s = Inr s' \<Longrightarrow> allocatedOutputPortCount s' = allocatedOutputPortCount s"
  by (auto simp: zero_motor_ccr_def split: sum.splits dest: store_ccr_cursor)

lemma zero_loop_cursor:
  "zero_loop index n s = Inr s' \<Longrightarrow> allocatedOutputPortCount s' = allocatedOutputPortCount s"
proof (induction index n s rule: zero_loop.induct)
  case (1 index motorCount s)
  show ?case
  proof (cases "index < motorCount")
    case False
    then show ?thesis using "1.prems" by (subst (asm) zero_loop.simps) simp
  next
    case True
    then obtain s1 where z: "zero_motor_ccr index s = Inr s1"
      and rest: "zero_loop (Suc index) motorCount s1 = Inr s'"
      using "1.prems" by (subst (asm) zero_loop.simps) (auto split: sum.splits)
    show ?thesis
      using "1.IH" [OF True z rest] zero_motor_ccr_cursor [OF z] by simp
  qed
qed

lemma overflow_loop_cursor:
  "overflow_loop index n lst s = Inr s' \<Longrightarrow>
     allocatedOutputPortCount s' = allocatedOutputPortCount s"
proof (induction index n lst s rule: overflow_loop.induct)
  case (1 index motorCount lastTimerPtr s)
  show ?case
  proof (cases "index < motorCount")
    case False
    then show ?thesis using "1.prems" by (subst (asm) overflow_loop.simps) simp
  next
    case True
    then obtain p port where m: "motors_at s index = Inr p" and q: "port_at s p = Inr port"
      and rest: "(if tim port \<noteq> lastTimerPtr
                  then overflow_loop (Suc index) motorCount (tim port)
                         (call_ext (TimerForceOverflow (tim port)) s)
                  else overflow_loop (Suc index) motorCount lastTimerPtr s) = Inr s'"
      using "1.prems" by (subst (asm) overflow_loop.simps) (auto split: sum.splits)
    show ?thesis
    proof (cases "tim port \<noteq> lastTimerPtr")
      case diff: True
      then show ?thesis using "1.IH"(1) [OF True m q diff] rest by simp
    next
      case same: False
      then show ?thesis using "1.IH"(2) [OF True m q same] rest by simp
    qed
  qed
qed

lemma pwmWriteMotor_cursor:
  "pwmWriteMotor e i v s = Inr s' \<Longrightarrow> allocatedOutputPortCount s' = allocatedOutputPortCount s"
  by (auto simp: pwmWriteMotor_def pwmWriteBrushed_def pwmWriteStandard_def
      split: sum.splits option.splits if_splits pwmWriteFuncPtr.splits dest: store_ccr_cursor)

lemma pwmWriteServo_cursor:
  "pwmWriteServo e i v s = Inr s' \<Longrightarrow> allocatedOutputPortCount s' = allocatedOutputPortCount s"
  by (auto simp: pwmWriteServo_def split: sum.splits if_splits dest: store_ccr_cursor)

lemma pwmCompleteOneshotMotorUpdate_cursor:
  "pwmCompleteOneshotMotorUpdate n s = Inr s' \<Longrightarrow>
     allocatedOutputPortCount s' = allocatedOutputPortCount s"
proof -
  assume a: "pwmCompleteOneshotMotorUpdate n s = Inr s'"
  then obtain s1 where o: "overflow_loop 0 (unat n) None s = Inr s1"
    and z: "zero_loop 0 (unat n) s1 = Inr s'"
    by (auto simp: pwmCompleteOneshotMotorUpdate_def split: sum.splits)
  show ?thesis using overflow_loop_cursor [OF o] zero_loop_cursor [OF z] by simp
qed

lemma pwmServoConfig_cursor:
  assumes "pwmServoConfig e th i r v s = Inr s'"
  shows "allocatedOutputPortCount s' = allocatedOutputPortCount s + 1"
  using assms
  by (auto simp: pwmServoConfig_def split: if_splits sum.splits prod.splits
      dest: pwmOutConfig_cursor(1))

lemma run_cursor:
  assumes "run e op s = Inr s'"
  shows "allocatedOutputPortCount s' = allocatedOutputPortCount s + (if allocates op then 1 else 0)"
proof (cases op)
  case (WriteMotor i v)
  then show ?thesis using assms pwmWriteMotor_cursor by simp
next
  case (WriteServo i v)
  then show ?thesis using assms pwmWriteServo_cursor by simp
next
  case (ShutdownPulsesForAllMotors n)
  then show ?thesis
    using assms zero_loop_cursor by (simp add: pwmShutdownPulsesForAllMotors_def)
next
  case DisableMotors
  then show ?thesis using assms by (auto simp: pwmDisableMotors_def)
next
  case EnableMotors
  then show ?thesis using assms by (auto simp: pwmEnableMotors_def)
next
  case (CompleteOneshotMotorUpdate n)
  then show ?thesis using assms pwmCompleteOneshotMotorUpdate_cursor by simp
next
  case (BrushedMotorConfig th i r v)
  then show ?thesis
    using assms motor_config_cursor
    by (simp add: pwmBrushedMotorConfig_def split: if_splits)
next
  case (BrushlessMotorConfig th i r v)
  then show ?thesis
    using assms motor_config_cursor
    by (simp add: pwmBrushlessMotorConfig_def split: if_splits)
next
  case (OneshotMotorConfig th i)
  then show ?thesis
    using assms motor_config_cursor by (simp add: pwmOneshotMotorConfig_def)
next
  case (ServoConfig th i r v)
  then show ?thesis using assms pwmServoConfig_cursor by simp
qed

lemma unat_cursor_succ:
  assumes "(c :: uint8_t) \<noteq> 255"
  shows "unat (c + 1) = unat c + 1"
proof -
  have "unat c \<noteq> 255"
  proof
    assume "unat c = 255"
    then have "of_nat (unat c) = (of_nat 255 :: uint8_t)" by simp
    then show False using assms by simp
  qed
  moreover have "unat c < 256" using unsigned_less [of c, where 'a = nat] by simp
  ultimately have "unat c + 1 < 256" by simp
  then show ?thesis by (simp add: unat_word_ariths)
qed

text \<open>
  Claim C8. A call of \<open>pwmOutConfig\<close> that returns has incremented the cursor by
  one, in the cursor's 8-bit arithmetic and, unless the cursor was 255, as a number,
  and returns the pool entry the cursor pointed at. When the timer handle is not
  found the call returns with the cursor incremented and nothing else changed. The
  call returns whenever the cursor points into the pool. Every operation of the
  module that returns leaves the cursor incremented by one when it is one of the four
  configuration operations and unchanged otherwise: none decrements it.
\<close>

theorem allocation_cursor_steps:
  "(\<forall>s' p. pwmOutConfig e th mhz per v s = Inr (s', p) \<longrightarrow>
       allocatedOutputPortCount s' = allocatedOutputPortCount s + 1
       \<and> p = unat (allocatedOutputPortCount s)
       \<and> (allocatedOutputPortCount s \<noteq> 255 \<longrightarrow>
            unat (allocatedOutputPortCount s') = unat (allocatedOutputPortCount s) + 1))
   \<and> (timerFindTimerHandle e (hw_tim th) = None \<longrightarrow>
        pwmOutConfig e th mhz per v s =
          Inr (s\<lparr>allocatedOutputPortCount := allocatedOutputPortCount s + 1\<rparr>,
               unat (allocatedOutputPortCount s)))
   \<and> (unat (allocatedOutputPortCount s) < length (pwmOutputPorts s) \<longrightarrow>
        (\<exists>s' p. pwmOutConfig e th mhz per v s = Inr (s', p)))
   \<and> (\<forall>s'. run e op s = Inr s' \<longrightarrow>
        allocatedOutputPortCount s'
          = allocatedOutputPortCount s + (if allocates op then 1 else 0))"
  using pwmOutConfig_cursor [of e th mhz per v s] pwmOutConfig_unresolved [of e th mhz per v s]
    pwmOutConfig_succeeds [of s e th mhz per v] run_cursor [of e op s]
    unat_cursor_succ [of "allocatedOutputPortCount s"]
  by (metis (no_types, lifting))

theorem allocation_cursor_steps_witness:
  "timerFindTimerHandle ex_env (hw_tim (ex_hw 9 TIM_CHANNEL_1)) = None
   \<and> allocatedOutputPortCount ex_state = 4
   \<and> unat (allocatedOutputPortCount ex_state) < length (pwmOutputPorts ex_state)
   \<and> pwmOutConfig ex_env (ex_hw 9 TIM_CHANNEL_1) 1 2500 1000 ex_state
        = Inr (ex_state\<lparr>allocatedOutputPortCount := 5\<rparr>, 4)
   \<and> (\<exists>s'. run ex_env (ServoConfig (ex_hw 3 TIM_CHANNEL_2) 1 50 1500) ex_state = Inr s'
         \<and> allocatedOutputPortCount s' = 5)
   \<and> (\<exists>s'. run ex_env (WriteMotor 1 1250) ex_state = Inr s'
         \<and> allocatedOutputPortCount s' = 4)"
proof -
  have h: "timerFindTimerHandle ex_env (hw_tim (ex_hw 9 TIM_CHANNEL_1)) = None"
    by (simp add: ex_env_def ex_hw_def)
  have c: "allocatedOutputPortCount ex_state = 4" by (simp add: ex_state_def)
  have l: "unat (allocatedOutputPortCount ex_state) < length (pwmOutputPorts ex_state)"
    by (simp add: ex_state_def)
  have r1: "\<exists>s'. run ex_env (ServoConfig (ex_hw 3 TIM_CHANNEL_2) 1 50 1500) ex_state = Inr s'"
    by (simp add: pwmServoConfig_def pwmOutConfig_def pwmOCConfig_def pwmGPIOConfig_def
        call_ext_def bind_ccr_def Let_def ex_state_def ex_env_def ex_hw_def)
  have r2: "\<exists>s'. run ex_env (WriteMotor 1 1250) ex_state = Inr s'"
    using pwmWriteMotor_configured [OF ex_state_motor1(1,2), of 1250]
    by (simp add: ex_state_def)
  have a1: "allocates (ServoConfig (ex_hw 3 TIM_CHANNEL_2) 1 50 1500)"
    and a2: "\<not> allocates (WriteMotor 1 1250)" by simp_all
  have n: "allocatedOutputPortCount ex_state + 1 = 5" "unat (allocatedOutputPortCount ex_state) = 4"
    unfolding c by simp_all
  have o: "pwmOutConfig ex_env (ex_hw 9 TIM_CHANNEL_1) 1 2500 1000 ex_state
        = Inr (ex_state\<lparr>allocatedOutputPortCount := 5\<rparr>, 4)"
    using allocation_cursor_steps [of ex_env "ex_hw 9 TIM_CHANNEL_1" 1 2500 1000 ex_state] h
    unfolding n by blast
  note step = allocation_cursor_steps [where e = ex_env and s = ex_state,
      THEN conjunct2, THEN conjunct2, THEN conjunct2, rule_format]
  obtain t1 where t1: "run ex_env (ServoConfig (ex_hw 3 TIM_CHANNEL_2) 1 50 1500) ex_state = Inr t1"
    using r1 by blast
  have "allocatedOutputPortCount t1 = allocatedOutputPortCount ex_state + 1"
    using step [OF t1] a1 by simp
  then have s1: "\<exists>s'. run ex_env (ServoConfig (ex_hw 3 TIM_CHANNEL_2) 1 50 1500) ex_state = Inr s'
         \<and> allocatedOutputPortCount s' = 5"
    using t1 n(1) by auto
  obtain t2 where t2: "run ex_env (WriteMotor 1 1250) ex_state = Inr t2"
    using r2 by blast
  have "allocatedOutputPortCount t2 = allocatedOutputPortCount ex_state"
    using step [OF t2] a2 by simp
  then have s2: "\<exists>s'. run ex_env (WriteMotor 1 1250) ex_state = Inr s'
         \<and> allocatedOutputPortCount s' = 4"
    using t2 c by auto
  show ?thesis using h c l o s1 s2 by blast
qed

end
